theory Spec2Isabelle
  imports Main "HOL-Library.Word"
begin

unbundle bit_operations_syntax

section \<open>The exit-status decoder (spawner.c, \<open>ps_convert_exit_status\<close>)\<close>

text \<open>
  A C \<open>int\<close> that is inspected bit by bit is a 32-bit word. The wait-status macros are
  those of the platform's \<open>sys/wait.h\<close>, which is not part of the repository; they are
  given here with the encoding of Linux (glibc): the low seven bits hold the terminating
  signal (0 for a normal exit, 127 for a stopped child), bits 8 to 15 the exit code.
\<close>

type_synonym c_int = "32 word"

definition WTERMSIG :: "c_int \<Rightarrow> c_int" where
  "WTERMSIG status = status AND 0x7f"

definition WIFEXITED :: "c_int \<Rightarrow> bool" where
  "WIFEXITED status = (WTERMSIG status = 0)"

definition WEXITSTATUS :: "c_int \<Rightarrow> c_int" where
  "WEXITSTATUS status = drop_bit 8 (status AND 0xff00)"

text \<open>
  \<open>((signed char) ((status & 0x7f) + 1) >> 1) > 0\<close>: the sum is cut to eight bits, read
  as a signed value and shifted arithmetically.
\<close>

definition WIFSIGNALED :: "c_int \<Rightarrow> bool" where
  "WIFSIGNALED status =
     (0 < drop_bit 1 (sint (ucast ((status AND 0x7f) + 1) :: 8 word)))"

text \<open>The three out-parameters of \<open>ps_convert_exit_status\<close>, returned together.\<close>

record exit_status =
  out_has_exited :: bool
  out_is_exit_code :: bool
  out_code :: c_int

definition ps_convert_exit_status :: "c_int \<Rightarrow> exit_status" where
  "ps_convert_exit_status in_status =
     (if WIFEXITED in_status then
        \<lparr>out_has_exited = True, out_is_exit_code = True,
         out_code = WEXITSTATUS in_status\<rparr>
      else if WIFSIGNALED in_status then
        \<lparr>out_has_exited = True, out_is_exit_code = False,
         out_code = WTERMSIG in_status\<rparr>
      else
        \<lparr>out_has_exited = False, out_is_exit_code = False, out_code = - 1\<rparr>)"

section \<open>The public data model (ps-api.h)\<close>

text \<open>
  \<open>ps_error_kind\<close> is a C enumeration; a zero-initialised \<open>ps_error\<close> has kind 0, which
  is none of its enumerators, so the kind is kept as the integer it is in C.
\<close>

definition PS_ERROR_KIND_EXECVE :: int where "PS_ERROR_KIND_EXECVE = 1"
definition PS_ERROR_KIND_PIPE :: int where "PS_ERROR_KIND_PIPE = 2"
definition PS_ERROR_KIND_FCNTL :: int where "PS_ERROR_KIND_FCNTL = 3"
definition PS_ERROR_KIND_SIGNAL :: int where "PS_ERROR_KIND_SIGNAL = 4"
definition PS_ERROR_KIND_SIGPROC_MASK :: int where "PS_ERROR_KIND_SIGPROC_MASK = 5"
definition PS_ERROR_KIND_CHDIR :: int where "PS_ERROR_KIND_CHDIR = 6"
definition PS_ERROR_KIND_SETSID :: int where "PS_ERROR_KIND_SETSID = 7"
definition PS_ERROR_KIND_DUP2 :: int where "PS_ERROR_KIND_DUP2 = 8"
definition PS_ERROR_KIND_READ_FROM_CHILD :: int where "PS_ERROR_KIND_READ_FROM_CHILD = 9"
definition PS_ERROR_KIND_DUP :: int where "PS_ERROR_KIND_DUP = 10"
definition PS_ERROR_KIND_SIGMASK_THREAD :: int where "PS_ERROR_KIND_SIGMASK_THREAD = 11"
definition PS_ERROR_KIND_FAILED_CHILD_WAITPID :: int where
  "PS_ERROR_KIND_FAILED_CHILD_WAITPID = 12"

lemmas ps_error_kind_defs =
  PS_ERROR_KIND_EXECVE_def PS_ERROR_KIND_PIPE_def PS_ERROR_KIND_FCNTL_def
  PS_ERROR_KIND_SIGNAL_def PS_ERROR_KIND_SIGPROC_MASK_def PS_ERROR_KIND_CHDIR_def
  PS_ERROR_KIND_SETSID_def PS_ERROR_KIND_DUP2_def PS_ERROR_KIND_READ_FROM_CHILD_def
  PS_ERROR_KIND_DUP_def PS_ERROR_KIND_SIGMASK_THREAD_def
  PS_ERROR_KIND_FAILED_CHILD_WAITPID_def

text \<open>\<open>pse_file\<close> is a pointer to a string literal; \<open>None\<close> is the null pointer.\<close>

record ps_error =
  pse_kind :: int
  pse_code :: int
  pse_file :: "string option"
  pse_line :: int
  pse_extra_info :: int

definition PS_MAP_FD :: int where "PS_MAP_FD = 1"
definition PS_CLOSE_FD :: int where "PS_CLOSE_FD = 2"

record ps_fd_setup =
  psfd_kind :: int
  psfd_parent_fd :: int

text \<open>
  \<open>psc_cwd\<close> may be the null pointer (\<open>None\<close>). The instruction array and its count are
  separate fields, as in C; reading the array at or beyond its end has no defined
  result.
\<close>

record ps_process_configuration =
  psc_path :: string
  psc_argv :: "string list"
  psc_env :: "string list"
  psc_cwd :: "string option"
  psc_fd_setup_count :: int
  psc_fd_setup_instructions :: "ps_fd_setup list"
  psc_new_session :: bool
  psc_close_other_fds :: bool

definition instruction_at :: "ps_process_configuration \<Rightarrow> int \<Rightarrow> ps_fd_setup option" where
  "instruction_at config child_fd =
     (if 0 \<le> child_fd \<and> nat child_fd < length (psc_fd_setup_instructions config)
      then Some (psc_fd_setup_instructions config ! nat child_fd)
      else None)"

section \<open>The process and the system calls\<close>

text \<open>
  The system calls are not code of the repository. The state of a process is what the
  spawner's calls read and change: the descriptor table (descriptor number to open file
  description and close-on-exec flag), the descriptor limit, \<open>errno\<close>, the signal mask of
  the calling thread, the signal dispositions, the working directory and whether the
  process leads a session. Calls on descriptors follow POSIX on the table; every call
  whose failure the kernel alone decides takes that decision as an argument
  (\<open>None\<close>: no failure, \<open>Some e\<close>: the call fails with \<open>errno = e\<close>).
\<close>

datatype ofd = Open_File nat | Fd_Directory | Error_Pipe_Read | Error_Pipe_Write

datatype disposition = SIG_DFL | SIG_IGN | Handler nat

type_synonym fault = "int option"

record proc =
  fds :: "int \<rightharpoonup> ofd \<times> bool"
  rlimit_nofile :: int
  errno :: int
  sigmask :: "int set"
  dispositions :: "int \<Rightarrow> disposition"
  cwd :: string
  session_leader :: bool

definition EINTR :: int where "EINTR = 4"
definition EBADF :: int where "EBADF = 9"
definition EINVAL :: int where "EINVAL = 22"
definition EMFILE :: int where "EMFILE = 24"
definition ENOSYS :: int where "ENOSYS = 38"

text \<open>Signal numbers of Linux; \<open>NSIG\<close> is one more than the highest signal number.\<close>

definition SIGILL :: int where "SIGILL = 4"
definition SIGTRAP :: int where "SIGTRAP = 5"
definition SIGABRT :: int where "SIGABRT = 6"
definition SIGBUS :: int where "SIGBUS = 7"
definition SIGFPE :: int where "SIGFPE = 8"
definition SIGKILL :: int where "SIGKILL = 9"
definition SIGSEGV :: int where "SIGSEGV = 11"
definition SIGSTOP :: int where "SIGSTOP = 19"
definition SIGSYS :: int where "SIGSYS = 31"
definition NSIG :: int where "NSIG = 65"

lemmas signal_defs =
  SIGILL_def SIGTRAP_def SIGABRT_def SIGBUS_def SIGFPE_def SIGKILL_def SIGSEGV_def
  SIGSTOP_def SIGSYS_def NSIG_def

text \<open>The lowest unused descriptor number from \<open>lo\<close> on, below the descriptor limit.\<close>

definition lowest_free :: "proc \<Rightarrow> int \<Rightarrow> int option" where
  "lowest_free p lo = List.find (\<lambda>fd. fds p fd = None) [lo..rlimit_nofile p - 1]"

text \<open>\<open>fcntl(fd, F_DUPFD_CLOEXEC, minfd)\<close>\<close>

definition fcntl_dupfd_cloexec :: "fault \<Rightarrow> int \<Rightarrow> int \<Rightarrow> proc \<Rightarrow> int \<times> proc" where
  "fcntl_dupfd_cloexec f fd minfd p =
     (case f of
        Some e \<Rightarrow> (- 1, p\<lparr>errno := e\<rparr>)
      | None \<Rightarrow>
          (case fds p fd of
             None \<Rightarrow> (- 1, p\<lparr>errno := EBADF\<rparr>)
           | Some (d, _) \<Rightarrow>
               if minfd < 0 \<or> rlimit_nofile p \<le> minfd then (- 1, p\<lparr>errno := EINVAL\<rparr>)
               else
                 (case lowest_free p minfd of
                    None \<Rightarrow> (- 1, p\<lparr>errno := EMFILE\<rparr>)
                  | Some n \<Rightarrow> (n, p\<lparr>fds := (fds p)(n \<mapsto> (d, True))\<rparr>))))"

text \<open>\<open>fcntl(fd, F_SETFD, FD_CLOEXEC)\<close>\<close>

definition fcntl_setfd_cloexec :: "fault \<Rightarrow> int \<Rightarrow> proc \<Rightarrow> int \<times> proc" where
  "fcntl_setfd_cloexec f fd p =
     (case f of
        Some e \<Rightarrow> (- 1, p\<lparr>errno := e\<rparr>)
      | None \<Rightarrow>
          (case fds p fd of
             None \<Rightarrow> (- 1, p\<lparr>errno := EBADF\<rparr>)
           | Some (d, _) \<Rightarrow> (0, p\<lparr>fds := (fds p)(fd \<mapsto> (d, True))\<rparr>)))"

text \<open>\<open>dup2(oldfd, newfd)\<close>: the new descriptor has close-on-exec cleared.\<close>

definition dup2 :: "fault \<Rightarrow> int \<Rightarrow> int \<Rightarrow> proc \<Rightarrow> int \<times> proc" where
  "dup2 f oldfd newfd p =
     (case f of
        Some e \<Rightarrow> (- 1, p\<lparr>errno := e\<rparr>)
      | None \<Rightarrow>
          (case fds p oldfd of
             None \<Rightarrow> (- 1, p\<lparr>errno := EBADF\<rparr>)
           | Some (d, _) \<Rightarrow>
               if newfd < 0 \<or> rlimit_nofile p \<le> newfd then (- 1, p\<lparr>errno := EBADF\<rparr>)
               else if oldfd = newfd then (newfd, p)
               else (newfd, p\<lparr>fds := (fds p)(newfd \<mapsto> (d, False))\<rparr>)))"

text \<open>\<open>close(fd)\<close>\<close>

definition close :: "int \<Rightarrow> proc \<Rightarrow> int \<times> proc" where
  "close fd p =
     (case fds p fd of
        None \<Rightarrow> (- 1, p\<lparr>errno := EBADF\<rparr>)
      | Some _ \<Rightarrow> (0, p\<lparr>fds := (fds p)(fd := None)\<rparr>))"

text \<open>
  \<open>close_range(first, last, 0)\<close>: both bounds are \<open>unsigned int\<close>, so an \<open>int\<close> argument
  is taken modulo \<open>2 ^ 32\<close>.
\<close>

definition to_unsigned :: "int \<Rightarrow> int" where
  "to_unsigned x = x mod 2 ^ 32"

definition close_range :: "fault \<Rightarrow> int \<Rightarrow> int \<Rightarrow> proc \<Rightarrow> int \<times> proc" where
  "close_range f first_fd last_fd p =
     (case f of
        Some e \<Rightarrow> (- 1, p\<lparr>errno := e\<rparr>)
      | None \<Rightarrow>
          if to_unsigned last_fd < to_unsigned first_fd then (- 1, p\<lparr>errno := EINVAL\<rparr>)
          else
            (0, p\<lparr>fds := (\<lambda>fd. if to_unsigned first_fd \<le> fd \<and> fd \<le> to_unsigned last_fd
                                then None else fds p fd)\<rparr>))"

text \<open>\<open>pipe(fds)\<close> takes the two lowest unused descriptors; on failure the array is untouched.\<close>

definition pipe :: "fault \<Rightarrow> int \<times> int \<Rightarrow> proc \<Rightarrow> int \<times> (int \<times> int) \<times> proc" where
  "pipe f fildes p =
     (case f of
        Some e \<Rightarrow> (- 1, fildes, p\<lparr>errno := e\<rparr>)
      | None \<Rightarrow>
          (case lowest_free p 0 of
             None \<Rightarrow> (- 1, fildes, p\<lparr>errno := EMFILE\<rparr>)
           | Some r \<Rightarrow>
               (case lowest_free (p\<lparr>fds := (fds p)(r \<mapsto> (Error_Pipe_Read, False))\<rparr>) 0 of
                  None \<Rightarrow> (- 1, fildes, p\<lparr>errno := EMFILE\<rparr>)
                | Some w \<Rightarrow>
                    (0, (r, w),
                     p\<lparr>fds := (fds p)(r \<mapsto> (Error_Pipe_Read, False),
                                       w \<mapsto> (Error_Pipe_Write, False))\<rparr>))))"

text \<open>A successful \<open>execve\<close> closes every descriptor whose close-on-exec flag is set.\<close>

definition after_exec :: "proc \<Rightarrow> int \<rightharpoonup> ofd \<times> bool" where
  "after_exec p =
     (\<lambda>fd. case fds p fd of
              None \<Rightarrow> None
            | Some (d, cloexec) \<Rightarrow> if cloexec then None else Some (d, False))"

section \<open>The helpers (internal-helpers.h)\<close>

subsection \<open>\<open>positive_int_parse\<close>\<close>

text \<open>
  \<open>out\<close> is a C \<open>int\<close>: a product or sum beyond \<open>INT_MAX\<close> is a signed overflow, which
  has no defined result (\<open>None\<close>). The multiplication by ten comes before the test of the
  character, as in the source.
\<close>

definition INT_MAX :: int where "INT_MAX = 2147483647"

fun positive_int_parse_from :: "int \<Rightarrow> string \<Rightarrow> int option" where
  "positive_int_parse_from out [] = Some out"
| "positive_int_parse_from out (c # str) =
     (if INT_MAX < out * 10 then None
      else if of_char CHR ''0'' \<le> (of_char c :: int) \<and> (of_char c :: int) \<le> of_char CHR ''9''
      then
        (if INT_MAX < out * 10 + (of_char c - of_char CHR ''0'') then None
         else positive_int_parse_from (out * 10 + (of_char c - of_char CHR ''0'')) str)
      else Some (- 1))"

definition positive_int_parse :: "string \<Rightarrow> int option" where
  "positive_int_parse str = positive_int_parse_from 0 str"

subsection \<open>\<open>highest_possibly_open_fd_dir_syscall\<close>\<close>

text \<open>
  One answer of the directory-entry system call: a batch of entries (a positive byte
  count; the names of the entries in the buffer, in order), the end of the directory
  (zero), or a failure with its \<open>errno\<close>. After the scripted answers the directory is at
  its end. \<open>open\<close> of the directory takes the lowest unused descriptor.
\<close>

datatype getdents = Dir_Entries "string list" | Dir_End | Dir_Error int

record dir_env =
  de_open :: fault
  de_reads :: "getdents list"

definition open_dir :: "fault \<Rightarrow> proc \<Rightarrow> int \<times> proc" where
  "open_dir f p =
     (case f of
        Some e \<Rightarrow> (- 1, p\<lparr>errno := e\<rparr>)
      | None \<Rightarrow>
          (case lowest_free p 0 of
             None \<Rightarrow> (- 1, p\<lparr>errno := EMFILE\<rparr>)
           | Some fd \<Rightarrow> (fd, p\<lparr>fds := (fds p)(fd \<mapsto> (Fd_Directory, False))\<rparr>)))"

text \<open>The inner loop over the entries of one buffer.\<close>

fun scan_entries :: "int \<Rightarrow> string list \<Rightarrow> int option" where
  "scan_entries highest_fd_so_far [] = Some highest_fd_so_far"
| "scan_entries highest_fd_so_far (d_name # entries) =
     (if d_name \<noteq> [] \<and> hd d_name = CHR ''.'' then scan_entries highest_fd_so_far entries
      else
        (case positive_int_parse d_name of
           None \<Rightarrow> None
         | Some number \<Rightarrow>
             scan_entries
               (if number > highest_fd_so_far then number else highest_fd_so_far) entries))"

text \<open>
  The outer loop runs while the byte count is positive. The test \<open>bytes_read < 0\<close> in its
  body is never true there, so the loop ends at the first answer that is not a batch,
  whatever its \<open>errno\<close>.
\<close>

fun read_entries :: "int \<Rightarrow> getdents list \<Rightarrow> proc \<Rightarrow> (int \<times> proc) option" where
  "read_entries highest_fd_so_far [] p = Some (highest_fd_so_far, p)"
| "read_entries highest_fd_so_far (Dir_End # _) p = Some (highest_fd_so_far, p)"
| "read_entries highest_fd_so_far (Dir_Error e # _) p =
     Some (highest_fd_so_far, p\<lparr>errno := e\<rparr>)"
| "read_entries highest_fd_so_far (Dir_Entries names # answers) p =
     (case scan_entries highest_fd_so_far names of
        None \<Rightarrow> None
      | Some highest \<Rightarrow> read_entries highest answers p)"

definition highest_possibly_open_fd_dir_syscall :: "dir_env \<Rightarrow> proc \<Rightarrow> (int \<times> proc) option"
  where
  "highest_possibly_open_fd_dir_syscall env p =
     (case open_dir (de_open env) p of
        (dir_fd, p1) \<Rightarrow>
          if dir_fd < 0 then Some (- 1, p1)
          else
            (case read_entries 0 (de_reads env) p1 of
               None \<Rightarrow> None
             | Some (highest_fd_so_far, p2) \<Rightarrow>
                 Some (highest_fd_so_far, snd (close dir_fd p2))))"

text \<open>\<open>highest_possibly_open_fd\<close>, as built on Linux and on Apple platforms.\<close>

definition highest_possibly_open_fd :: "dir_env \<Rightarrow> proc \<Rightarrow> (int \<times> proc) option" where
  "highest_possibly_open_fd env p =
     (case highest_possibly_open_fd_dir_syscall env p of
        None \<Rightarrow> None
      | Some (hi, p') \<Rightarrow> Some (if hi < 0 then rlimit_nofile p' else hi, p'))"

subsection \<open>\<open>block_everything_but_something_went_seriously_wrong_signals\<close>\<close>

text \<open>
  A \<open>sigset_t\<close> is the set of the signal numbers in it. \<open>sigfillset\<close> returns 0;
  \<open>sigdelset\<close> returns \<open>-1\<close> with \<open>EINVAL\<close> for a number that is no signal.
  \<open>pthread_sigmask\<close> returns 0 or an error number and leaves \<open>errno\<close> alone; the kernel
  never blocks \<open>SIGKILL\<close> and \<open>SIGSTOP\<close>. The slot for the old mask is passed with whatever
  it holds before the call and returned with what it holds after it.
\<close>

definition sigfillset :: "int \<times> int set" where
  "sigfillset = (0, {1..<NSIG})"

definition sigdelset :: "int set \<Rightarrow> int \<Rightarrow> proc \<Rightarrow> int \<times> int set \<times> proc" where
  "sigdelset sig_mask signo p =
     (if 1 \<le> signo \<and> signo < NSIG then (0, sig_mask - {signo}, p)
      else (- 1, sig_mask, p\<lparr>errno := EINVAL\<rparr>))"

definition pthread_sigmask_block ::
  "int \<Rightarrow> int set \<Rightarrow> int set \<Rightarrow> proc \<Rightarrow> int \<times> int set \<times> proc" where
  "pthread_sigmask_block ret sig_mask old_mask p =
     (if ret = 0
      then (0, sigmask p, p\<lparr>sigmask := (sigmask p \<union> sig_mask) - {SIGKILL, SIGSTOP}\<rparr>)
      else (ret, old_mask, p))"

definition pthread_sigmask_setmask :: "int \<Rightarrow> int set \<Rightarrow> proc \<Rightarrow> int \<times> proc" where
  "pthread_sigmask_setmask ret sig_mask p =
     (if ret = 0 then (0, p\<lparr>sigmask := sig_mask - {SIGKILL, SIGSTOP}\<rparr>) else (ret, p))"

text \<open>One \<open>r |= sigdelset(&mask, signo)\<close>.\<close>

definition delset_step :: "int \<Rightarrow> int \<times> int set \<times> proc \<Rightarrow> int \<times> int set \<times> proc" where
  "delset_step signo = (\<lambda>(r, sig_mask, p).
     case sigdelset sig_mask signo p of (r', new_mask, p') \<Rightarrow> (r OR r', new_mask, p'))"

text \<open>The mask as built before it is applied: \<open>sigfillset\<close>, then the nine \<open>sigdelset\<close>.\<close>

definition seriously_wrong_mask :: "proc \<Rightarrow> int \<times> int set \<times> proc" where
  "seriously_wrong_mask p =
     fold delset_step
       [SIGABRT, SIGBUS, SIGFPE, SIGILL, SIGKILL, SIGSEGV, SIGSTOP, SIGSYS, SIGTRAP]
       (0 OR fst sigfillset, snd sigfillset, p)"

definition block_everything_but_something_went_seriously_wrong_signals ::
  "int \<Rightarrow> int set \<Rightarrow> proc \<Rightarrow> int \<times> int set \<times> proc" where
  "block_everything_but_something_went_seriously_wrong_signals sigmask_ret old_mask p =
     (case seriously_wrong_mask p of
        (r, sig_mask, p1) \<Rightarrow>
          (case pthread_sigmask_block sigmask_ret sig_mask old_mask p1 of
             (r', old_mask', p2) \<Rightarrow> (r OR r', old_mask', p2)))"

section \<open>The child (spawner.c, \<open>setup_and_execve_child\<close>)\<close>

text \<open>
  \<open>MAKE_PS_ERROR_FROM_ERRNO\<close> at a line of spawner.c; the fields the compound literal
  does not name are zero.
\<close>

definition MAKE_PS_ERROR_FROM_ERRNO :: "int \<Rightarrow> int \<Rightarrow> proc \<Rightarrow> ps_error" where
  "MAKE_PS_ERROR_FROM_ERRNO kind line p =
     \<lparr>pse_kind = kind, pse_code = errno p, pse_file = Some ''spawner.c'',
      pse_line = line, pse_extra_info = 0\<rparr>"

text \<open>\<open>PS_SIG_MAX\<close>: the test \<open>#if __apple__\<close> holds on no platform, so the value is 32.\<close>

definition PS_SIG_MAX :: int where "PS_SIG_MAX = 32"

text \<open>
  What the kernel decides for the child: the failures of \<open>signal\<close> (by signal number), of
  \<open>sigprocmask\<close>, of the two duplications (by child descriptor), of \<open>close_range\<close>, of
  \<open>chdir\<close> and of \<open>execve\<close>; the value \<open>setsid\<close> returns and its \<open>errno\<close>; the answers of
  the descriptor directory. \<open>ce_has_close_range\<close> says whether the build found
  \<open>linux/close_range.h\<close>.
\<close>

record child_env =
  ce_signal :: "int \<Rightarrow> fault"
  ce_sigprocmask :: fault
  ce_setsid :: "int \<times> int"
  ce_dup :: "int \<Rightarrow> fault"
  ce_dup2 :: "int \<Rightarrow> fault"
  ce_has_close_range :: bool
  ce_close_range :: fault
  ce_fd_dir :: dir_env
  ce_chdir :: fault
  ce_execve :: fault

text \<open>
  How the child ends: a successful \<open>execve\<close> (with the process as it is when \<open>execve\<close> is
  called), \<open>_exit\<close> with a status after the error record was written to the description
  behind the error-pipe descriptor (\<open>None\<close> when that descriptor is closed), a trap of
  \<open>ps_precondition\<close>, or undefined behaviour (a read beyond the instruction array, a
  write through a null scratch pointer, a signed overflow).
\<close>

datatype child_outcome =
    Exec proc
  | Exit int "(ofd \<times> ps_error) option" proc
  | Child_Trap
  | Child_Undefined

text \<open>One stage of the child either goes on, or jumps to \<open>write_fail\<close>, or ends.\<close>

datatype 'a step = Next 'a | Write_Fail ps_error proc | Trap | Undefined

definition and_then :: "'a step \<Rightarrow> ('a \<Rightarrow> 'b step) \<Rightarrow> 'b step" where
  "and_then s k =
     (case s of
        Next x \<Rightarrow> k x
      | Write_Fail error p \<Rightarrow> Write_Fail error p
      | Trap \<Rightarrow> Trap
      | Undefined \<Rightarrow> Undefined)"

definition signal_dfl :: "fault \<Rightarrow> int \<Rightarrow> proc \<Rightarrow> bool \<times> proc" where
  "signal_dfl f signo p =
     (case f of
        Some e \<Rightarrow> (False, p\<lparr>errno := e\<rparr>)
      | None \<Rightarrow> (True, p\<lparr>dispositions := (dispositions p)(signo := SIG_DFL)\<rparr>))"

text \<open>\<open>/* reset signal handlers */\<close>: the loop, from \<open>signo\<close> on.\<close>

function reset_signal_handlers :: "(int \<Rightarrow> fault) \<Rightarrow> int \<Rightarrow> proc \<Rightarrow> proc step" where
  "reset_signal_handlers sig_fault signo p =
     (if signo < PS_SIG_MAX then
        if signo = SIGKILL \<or> signo = SIGSTOP
        then reset_signal_handlers sig_fault (signo + 1) p
        else
          (case signal_dfl (sig_fault signo) signo p of
             (ok, p') \<Rightarrow>
               if ok then reset_signal_handlers sig_fault (signo + 1) p'
               else if errno p' = EINVAL then Next p'
               else
                 Write_Fail
                   ((MAKE_PS_ERROR_FROM_ERRNO PS_ERROR_KIND_SIGNAL 94 p')
                      \<lparr>pse_extra_info := signo\<rparr>) p')
      else Next p)"
  by pat_completeness auto
termination
  by (relation "measure (\<lambda>(sig_fault, signo, p). nat (PS_SIG_MAX - signo))") auto

text \<open>\<open>/* reset signal mask */\<close>: \<open>sigprocmask(SIG_SETMASK, &sigset, NULL)\<close> with the empty set.\<close>

definition reset_signal_mask :: "child_env \<Rightarrow> proc \<Rightarrow> proc step" where
  "reset_signal_mask env p =
     (case ce_sigprocmask env of
        Some e \<Rightarrow>
          Write_Fail (MAKE_PS_ERROR_FROM_ERRNO PS_ERROR_KIND_SIGPROC_MASK 103 (p\<lparr>errno := e\<rparr>))
            (p\<lparr>errno := e\<rparr>)
      | None \<Rightarrow> Next (p\<lparr>sigmask := {}\<rparr>))"

text \<open>
  \<open>err = setsid(); if (err) ...\<close>: the test is on the value \<open>setsid\<close> returns, which is the
  new session id on success and \<open>-1\<close> on failure.
\<close>

definition new_session :: "child_env \<Rightarrow> ps_process_configuration \<Rightarrow> proc \<Rightarrow> proc step" where
  "new_session env config p =
     (if psc_new_session config then
        (case ce_setsid env of
           (err, e) \<Rightarrow>
             let p' = (if err = - 1 then p\<lparr>errno := e\<rparr> else p\<lparr>session_leader := True\<rparr>)
             in if err \<noteq> 0
                then Write_Fail (MAKE_PS_ERROR_FROM_ERRNO PS_ERROR_KIND_SETSID 110 p') p'
                else Next p')
      else Next p)"

text \<open>
  The first loop over the instructions, from \<open>child_fd\<close> on: every \<open>PS_MAP_FD\<close> source is
  duplicated to a descriptor from \<open>psc_fd_setup_count\<close> up, with close-on-exec. The scratch
  array is the result of \<open>calloc\<close>: \<open>None\<close> is the null pointer.
\<close>

function duplicate_up ::
  "(int \<Rightarrow> fault) \<Rightarrow> ps_process_configuration \<Rightarrow> int \<Rightarrow> (int \<Rightarrow> int) option \<Rightarrow> proc
   \<Rightarrow> ((int \<Rightarrow> int) option \<times> proc) step" where
  "duplicate_up dup_fault config child_fd scratch p =
     (if child_fd < psc_fd_setup_count config then
        (case instruction_at config child_fd of
           None \<Rightarrow> Undefined
         | Some setup \<Rightarrow>
             if psfd_kind setup = PS_MAP_FD then
               (case fcntl_dupfd_cloexec (dup_fault child_fd) (psfd_parent_fd setup)
                       (psc_fd_setup_count config) p of
                  (duplicated_fd, p') \<Rightarrow>
                    (case scratch of
                       None \<Rightarrow> Undefined
                     | Some cells \<Rightarrow>
                         if duplicated_fd = - 1 then
                           Write_Fail
                             ((MAKE_PS_ERROR_FROM_ERRNO PS_ERROR_KIND_DUP 122 p')
                                \<lparr>pse_extra_info := child_fd\<rparr>) p'
                         else
                           duplicate_up dup_fault config (child_fd + 1)
                             (Some (cells(child_fd := duplicated_fd))) p'))
             else if psfd_kind setup = PS_CLOSE_FD then
               (case scratch of
                  None \<Rightarrow> Undefined
                | Some cells \<Rightarrow>
                    duplicate_up dup_fault config (child_fd + 1)
                      (Some (cells(child_fd := - 1))) p)
             else Trap)
      else Next (scratch, p))"
  by pat_completeness auto
termination
  by (relation "measure (\<lambda>(dup_fault, config, child_fd, scratch, p).
        nat (psc_fd_setup_count config - child_fd))") auto

text \<open>The second loop: every duplicate is installed at its child descriptor by \<open>dup2\<close>.\<close>

function install_fds ::
  "(int \<Rightarrow> fault) \<Rightarrow> ps_process_configuration \<Rightarrow> int \<Rightarrow> (int \<Rightarrow> int) option \<Rightarrow> proc
   \<Rightarrow> proc step" where
  "install_fds dup2_fault config child_fd scratch p =
     (if child_fd < psc_fd_setup_count config then
        (case instruction_at config child_fd of
           None \<Rightarrow> Undefined
         | Some setup \<Rightarrow>
             if psfd_kind setup = PS_MAP_FD then
               (case scratch of
                  None \<Rightarrow> Undefined
                | Some cells \<Rightarrow>
                    if \<not> cells child_fd > child_fd then Trap
                    else
                      (case dup2 (dup2_fault child_fd) (cells child_fd) child_fd p of
                         (err, p') \<Rightarrow>
                           if err = - 1 then
                             Write_Fail
                               ((MAKE_PS_ERROR_FROM_ERRNO PS_ERROR_KIND_DUP2 142 p')
                                  \<lparr>pse_extra_info := child_fd\<rparr>) p'
                           else install_fds dup2_fault config (child_fd + 1) scratch p'))
             else if psfd_kind setup = PS_CLOSE_FD then
               (case scratch of
                  None \<Rightarrow> Undefined
                | Some cells \<Rightarrow>
                    if cells child_fd \<noteq> - 1 then Trap
                    else
                      install_fds dup2_fault config (child_fd + 1) scratch
                        (snd (close child_fd p)))
             else Trap)
      else Next p)"
  by pat_completeness auto
termination
  by (relation "measure (\<lambda>(dup2_fault, config, child_fd, scratch, p).
        nat (psc_fd_setup_count config - child_fd))") auto

text \<open>The fallback loop \<open>for (i = ...; i <= high_fd; i++) if (i != error_pipe) close(i)\<close>.\<close>

function close_each :: "int \<Rightarrow> int \<Rightarrow> int \<Rightarrow> proc \<Rightarrow> proc" where
  "close_each i high_fd error_pipe p =
     (if i \<le> high_fd
      then close_each (i + 1) high_fd error_pipe (if i \<noteq> error_pipe then snd (close i p) else p)
      else p)"
  by pat_completeness auto
termination
  by (relation "measure (\<lambda>(i, high_fd, error_pipe, p). nat (high_fd + 1 - i))") auto

text \<open>
  The calls of \<open>close_range\<close>, compiled in only where the header exists; \<open>~0U\<close> is
  \<open>4294967295\<close>. Without them \<open>close_range_err\<close> keeps its initial \<open>-1\<close>.
\<close>

definition close_ranges ::
  "child_env \<Rightarrow> ps_process_configuration \<Rightarrow> int \<Rightarrow> proc \<Rightarrow> int \<times> proc" where
  "close_ranges env config error_pipe p =
     (if ce_has_close_range env then
        if error_pipe > psc_fd_setup_count config then
          (case close_range (ce_close_range env) (psc_fd_setup_count config) (error_pipe - 1) p
           of (r1, p1) \<Rightarrow>
             (case close_range (ce_close_range env) (error_pipe + 1) 4294967295 p1
              of (r2, p2) \<Rightarrow> (r1 OR r2, p2)))
        else
          close_range (ce_close_range env)
            (if psc_fd_setup_count config = error_pipe then error_pipe + 1
             else psc_fd_setup_count config)
            4294967295 p
      else (- 1, p))"

definition close_other_fds ::
  "child_env \<Rightarrow> ps_process_configuration \<Rightarrow> int \<Rightarrow> proc \<Rightarrow> proc step" where
  "close_other_fds env config error_pipe p =
     (if psc_close_other_fds config then
        (case close_ranges env config error_pipe (p\<lparr>errno := ENOSYS\<rparr>) of
           (close_range_err, p1) \<Rightarrow>
             if close_range_err \<noteq> 0 then
               (case highest_possibly_open_fd (ce_fd_dir env) p1 of
                  None \<Rightarrow> Undefined
                | Some (high_fd, p2) \<Rightarrow>
                    Next (close_each (psc_fd_setup_count config) high_fd error_pipe p2))
             else Next p1)
      else Next p)"

definition change_directory :: "child_env \<Rightarrow> ps_process_configuration \<Rightarrow> proc \<Rightarrow> proc step"
  where
  "change_directory env config p =
     (case psc_cwd config of
        None \<Rightarrow> Next p
      | Some dir \<Rightarrow>
          (case ce_chdir env of
             Some e \<Rightarrow>
               Write_Fail (MAKE_PS_ERROR_FROM_ERRNO PS_ERROR_KIND_CHDIR 183 (p\<lparr>errno := e\<rparr>))
                 (p\<lparr>errno := e\<rparr>)
           | None \<Rightarrow> Next (p\<lparr>cwd := dir\<rparr>)))"

text \<open>\<open>/* finally, exec */\<close>: \<open>execve\<close> returns only when it fails.\<close>

definition execve :: "child_env \<Rightarrow> proc \<Rightarrow> proc step" where
  "execve env p =
     (case ce_execve env of
        Some e \<Rightarrow>
          Write_Fail (MAKE_PS_ERROR_FROM_ERRNO PS_ERROR_KIND_EXECVE 191 (p\<lparr>errno := e\<rparr>))
            (p\<lparr>errno := e\<rparr>)
      | None \<Rightarrow> Next p)"

text \<open>
  The label \<open>write_fail\<close>: the record goes to whatever the error-pipe descriptor refers to
  at that moment, the descriptor is closed and the child exits with status 253.
\<close>

definition write_fail :: "int \<Rightarrow> ps_error \<Rightarrow> proc \<Rightarrow> child_outcome" where
  "write_fail error_pipe error p =
     Exit 253 (map_option (\<lambda>(d, cloexec). (d, error)) (fds p error_pipe))
       (snd (close error_pipe p))"

text \<open>The stages of the child up to the two loops over the instructions, and all of them.\<close>

definition arrange_fds ::
  "child_env \<Rightarrow> ps_process_configuration \<Rightarrow> (int \<Rightarrow> int) option \<Rightarrow> proc \<Rightarrow> proc step" where
  "arrange_fds env config scratch p =
     and_then (duplicate_up (ce_dup env) config 0 scratch p)
       (\<lambda>(scratch', p'). install_fds (ce_dup2 env) config 0 scratch' p')"

definition child_stages ::
  "child_env \<Rightarrow> ps_process_configuration \<Rightarrow> int \<Rightarrow> (int \<Rightarrow> int) option \<Rightarrow> proc \<Rightarrow> proc step"
  where
  "child_stages env config error_pipe scratch p =
     and_then (reset_signal_handlers (ce_signal env) 1 p) (\<lambda>p.
     and_then (reset_signal_mask env p) (\<lambda>p.
     and_then (new_session env config p) (\<lambda>p.
     and_then (arrange_fds env config scratch p) (\<lambda>p.
     and_then (close_other_fds env config error_pipe p) (\<lambda>p.
     and_then (change_directory env config p) (\<lambda>p.
     execve env p))))))"

definition setup_and_execve_child ::
  "child_env \<Rightarrow> ps_process_configuration \<Rightarrow> int \<Rightarrow> (int \<Rightarrow> int) option \<Rightarrow> proc
   \<Rightarrow> child_outcome" where
  "setup_and_execve_child env config error_pipe scratch p =
     (case child_stages env config error_pipe scratch p of
        Next p' \<Rightarrow> Exec p'
      | Write_Fail error p' \<Rightarrow> write_fail error_pipe error p'
      | Trap \<Rightarrow> Child_Trap
      | Undefined \<Rightarrow> Child_Undefined)"

section \<open>The parent (spawner.c, \<open>ps_spawn_process\<close>)\<close>

text \<open>
  One answer of \<open>read\<close> on the error pipe: the value returned, what the buffer
  \<open>child_error\<close> holds afterwards, and \<open>errno\<close> after a failure. One answer of \<open>waitpid\<close>:
  the value returned and \<open>errno\<close> after a failure. Both calls block, and both loops of the
  parent go on for as long as the kernel answers in certain ways, so the answers are a
  script; a loop that has used up its script has not returned (\<open>None\<close>).
\<close>

record read_answer =
  ra_result :: int
  ra_data :: ps_error
  ra_errno :: int

text \<open>
  What the kernel and the C library decide for the parent. \<open>se_fork\<close> is the value of
  \<open>vfork\<close> (or \<open>fork\<close>) with \<open>errno\<close> after a failure; the value 0 is the child's side of
  the call. \<open>se_calloc\<close> is false when \<open>calloc\<close> returns the null pointer. The lock, unlock
  and mask calls return 0 or an error number. \<open>se_old_sigmask\<close> is what the uninitialised
  variable \<open>old_sigmask\<close> holds. \<open>se_ndebug\<close> says whether the build defines \<open>NDEBUG\<close>, under
  which \<open>ps_assert\<close> is empty.
\<close>

record spawn_env =
  se_pipe :: fault
  se_cloexec_read :: fault
  se_cloexec_write :: fault
  se_calloc :: bool
  se_mutex_lock :: int
  se_sigmask_block :: int
  se_old_sigmask :: "int set"
  se_fork :: "int \<times> int"
  se_sigmask_restore :: int
  se_mutex_unlock :: int
  se_reads :: "read_answer list"
  se_waitpids :: "(int \<times> int) list"
  se_child :: child_env
  se_ndebug :: bool

text \<open>
  How a call of \<open>ps_spawn_process\<close> ends: it returns a pid, with \<open>*out_error\<close> as it then
  is (\<open>None\<close> for a null \<open>out_error\<close>) and the process; a \<open>ps_precondition\<close> or \<open>ps_assert\<close>
  traps; a write goes through a null pointer; or this is the child's side of the fork.
\<close>

datatype spawn_outcome =
    Returned int "ps_error option" proc
  | Trapped
  | Null_Dereference
  | In_Child child_outcome

datatype 'a access = Valid 'a | Null_Pointer

text \<open>\<open>*out_error = error\<close>, and the guarded form \<open>if (out_error) { *out_error = error; }\<close>.\<close>

definition assign :: "ps_error option \<Rightarrow> ps_error \<Rightarrow> ps_error option access" where
  "assign out_error error =
     (case out_error of None \<Rightarrow> Null_Pointer | Some old \<Rightarrow> Valid (Some error))"

definition set_out_error :: "ps_error option \<Rightarrow> ps_error \<Rightarrow> ps_error option access" where
  "set_out_error out_error error =
     (if out_error \<noteq> None then assign out_error error else Valid out_error)"

text \<open>The size of a \<open>ps_error\<close> in bytes, with 4-byte \<open>int\<close> and 8-byte pointers.\<close>

definition sizeof_ps_error :: int where "sizeof_ps_error = 24"

text \<open>
  The end of \<open>error_cleanup\<close>, after the reaping: the pipe ends still open are closed and
  \<open>ps_precondition((!out_error) || (out_error->pse_kind != 0))\<close> guards \<open>return 0\<close>.
\<close>

definition finish :: "int \<times> int \<Rightarrow> ps_error option \<Rightarrow> proc \<Rightarrow> spawn_outcome" where
  "finish error_pid_fd out_error p =
     (let p1 = (if fst error_pid_fd \<noteq> - 1 then snd (close (fst error_pid_fd) p) else p);
          p2 = (if snd error_pid_fd \<noteq> - 1 then snd (close (snd error_pid_fd) p1) else p1)
      in if (case out_error of None \<Rightarrow> True | Some error \<Rightarrow> pse_kind error \<noteq> 0)
         then Returned 0 out_error p2
         else Trapped)"

text \<open>
  The \<open>waitpid\<close> loop of \<open>error_cleanup\<close>. Its second test is on \<open>err\<close>, the result of the
  last call before the jump to the label, not on \<open>wp_result\<close>.
\<close>

fun wait_for_child ::
  "bool \<Rightarrow> int \<Rightarrow> (int \<times> int) list \<Rightarrow> int \<times> int \<Rightarrow> ps_error option \<Rightarrow> proc
   \<Rightarrow> spawn_outcome option" where
  "wait_for_child ndebug err [] error_pid_fd out_error p = None"
| "wait_for_child ndebug err ((wp_result, e) # answers) error_pid_fd out_error p =
     (let p' = (if wp_result = - 1 then p\<lparr>errno := e\<rparr> else p) in
      if wp_result > 0 then Some (finish error_pid_fd out_error p')
      else if err = - 1 then
        if errno p' = EINTR
        then wait_for_child ndebug err answers error_pid_fd out_error p'
        else if \<not> ndebug then Some Trapped
        else
          (case set_out_error out_error
                  (MAKE_PS_ERROR_FROM_ERRNO PS_ERROR_KIND_FAILED_CHILD_WAITPID 333 p') of
             Null_Pointer \<Rightarrow> Some Null_Dereference
           | Valid out_error' \<Rightarrow> Some (finish error_pid_fd out_error' p'))
      else Some Trapped)"

text \<open>The label \<open>error_cleanup\<close>.\<close>

definition error_cleanup ::
  "spawn_env \<Rightarrow> int \<Rightarrow> int \<Rightarrow> int \<times> int \<Rightarrow> ps_error option \<Rightarrow> proc
   \<Rightarrow> spawn_outcome option" where
  "error_cleanup env pid err error_pid_fd out_error p =
     (if pid > 0
      then wait_for_child (se_ndebug env) err (se_waitpids env) error_pid_fd out_error p
      else Some (finish error_pid_fd out_error p))"

text \<open>\<open>if (out_error) { *out_error = error; } goto error_cleanup;\<close>\<close>

definition fail_with ::
  "spawn_env \<Rightarrow> int \<Rightarrow> int \<Rightarrow> int \<times> int \<Rightarrow> ps_error option \<Rightarrow> ps_error \<Rightarrow> proc
   \<Rightarrow> spawn_outcome option" where
  "fail_with env pid err error_pid_fd out_error error p =
     (case set_out_error out_error error of
        Null_Pointer \<Rightarrow> Some Null_Dereference
      | Valid out_error' \<Rightarrow> error_cleanup env pid err error_pid_fd out_error' p)"

text \<open>
  The loop that reads the child's report. After the unconditional \<open>goto error_cleanup\<close> of
  the branch \<open>read_res > 0\<close> nothing of that branch runs, and no branch handles a negative
  \<open>read_res\<close>: the loop then starts over, whatever \<open>errno\<close> is.
\<close>

fun read_from_child ::
  "spawn_env \<Rightarrow> int \<Rightarrow> int \<Rightarrow> read_answer list \<Rightarrow> int \<times> int \<Rightarrow> ps_error option \<Rightarrow> proc
   \<Rightarrow> spawn_outcome option" where
  "read_from_child env pid err [] error_pid_fd out_error p = None"
| "read_from_child env pid err (a # answers) error_pid_fd out_error p =
     (let p' = (if ra_result a = - 1 then p\<lparr>errno := ra_errno a\<rparr> else p) in
      if ra_result a = 0
      then Some (Returned pid out_error (snd (close (fst error_pid_fd) p')))
      else if ra_result a > 0 then
        if ra_result a \<noteq> sizeof_ps_error then Some Trapped
        else fail_with env pid err error_pid_fd out_error (ra_data a) p'
      else read_from_child env pid err answers error_pid_fd out_error p')"

text \<open>From the fork on.\<close>

definition fork_and_report ::
  "spawn_env \<Rightarrow> ps_process_configuration \<Rightarrow> ps_error option \<Rightarrow> int \<times> int
   \<Rightarrow> (int \<Rightarrow> int) option \<Rightarrow> int set \<Rightarrow> proc \<Rightarrow> spawn_outcome option" where
  "fork_and_report env config out_error error_pid_fd scratch old_sigmask p =
     (case se_fork env of
        (pid, e) \<Rightarrow>
          if pid = 0 then
            Some (In_Child
              (setup_and_execve_child (se_child env) config (snd error_pid_fd) scratch p))
          else
            (case pthread_sigmask_setmask (se_sigmask_restore env) old_sigmask
                    (if pid < 0 then p\<lparr>errno := e\<rparr> else p) of
               (err, p1) \<Rightarrow>
                 if err \<noteq> 0 then
                   fail_with env pid err error_pid_fd out_error
                     (MAKE_PS_ERROR_FROM_ERRNO PS_ERROR_KIND_SIGMASK_THREAD 265 p1) p1
                 else if se_mutex_unlock env \<noteq> 0 then Some Trapped
                 else if pid > 0 then
                   read_from_child env pid (se_mutex_unlock env) (se_reads env)
                     (fst error_pid_fd, - 1) out_error
                     (snd (close (snd error_pid_fd) p1))
                 else
                   fail_with env 0 (se_mutex_unlock env) error_pid_fd out_error
                     (MAKE_PS_ERROR_FROM_ERRNO PS_ERROR_KIND_FCNTL 312 p1) p1))"

definition ps_spawn_process ::
  "spawn_env \<Rightarrow> ps_process_configuration \<Rightarrow> ps_error option \<Rightarrow> proc \<Rightarrow> spawn_outcome option"
  where
  "ps_spawn_process env config out_error p =
     (case pipe (se_pipe env) (- 1, - 1) p of
        (err, error_pid_fd, p1) \<Rightarrow>
          if err \<noteq> 0 then
            fail_with env (- 1) err error_pid_fd out_error
              (MAKE_PS_ERROR_FROM_ERRNO PS_ERROR_KIND_PIPE 210 p1) p1
          else
            (case fcntl_setfd_cloexec (se_cloexec_read env) (fst error_pid_fd) p1 of
               (err, p2) \<Rightarrow>
                 if err \<noteq> 0 then
                   fail_with env (- 1) err error_pid_fd out_error
                     (MAKE_PS_ERROR_FROM_ERRNO PS_ERROR_KIND_FCNTL 219 p2) p2
                 else
                   (case fcntl_setfd_cloexec (se_cloexec_write env) (snd error_pid_fd) p2 of
                      (err, p3) \<Rightarrow>
                        if err \<noteq> 0 then
                          fail_with env (- 1) err error_pid_fd out_error
                            (MAKE_PS_ERROR_FROM_ERRNO PS_ERROR_KIND_FCNTL 228 p3) p3
                        else if se_mutex_lock env \<noteq> 0 then Some Trapped
                        else
                          (case block_everything_but_something_went_seriously_wrong_signals
                                  (se_sigmask_block env) (se_old_sigmask env) p3 of
                             (err, old_sigmask, p4) \<Rightarrow>
                               if err \<noteq> 0 then
                                 fail_with env (- 1) err error_pid_fd out_error
                                   (MAKE_PS_ERROR_FROM_ERRNO PS_ERROR_KIND_SIGMASK_THREAD 244 p4)
                                   p4
                               else
                                 fork_and_report env config out_error error_pid_fd
                                   (if se_calloc env then Some (\<lambda>i. 0) else None)
                                   old_sigmask p4))))"

section \<open>Notions used in the statements, and sample inputs\<close>

text \<open>The signal numbers below \<open>PS_SIG_MAX\<close> for which the loop of the child calls \<open>signal\<close>.\<close>

definition resettable :: "int \<Rightarrow> bool" where
  "resettable signo \<longleftrightarrow> signo < PS_SIG_MAX \<and> signo \<noteq> SIGKILL \<and> signo \<noteq> SIGSTOP"

text \<open>What one slot of the scratch array holds after the first loop.\<close>

definition duplicated ::
  "ps_process_configuration \<Rightarrow> proc \<Rightarrow> proc \<Rightarrow> (int \<Rightarrow> int) \<Rightarrow> int \<Rightarrow> bool" where
  "duplicated config p p' cells i \<longleftrightarrow>
     (case instruction_at config i of
        None \<Rightarrow> False
      | Some setup \<Rightarrow>
          if psfd_kind setup = PS_MAP_FD then
            psc_fd_setup_count config \<le> cells i
            \<and> (\<exists>d. fds p' (cells i) = Some (d, True)
                  \<and> (\<forall>d0 c0. fds p (psfd_parent_fd setup) = Some (d0, c0) \<longrightarrow> d = d0))
          else psfd_kind setup = PS_CLOSE_FD \<and> cells i = - 1)"

text \<open>What one child descriptor is after the second loop.\<close>

definition installed ::
  "ps_process_configuration \<Rightarrow> (int \<Rightarrow> int) \<Rightarrow> proc \<Rightarrow> proc \<Rightarrow> int \<Rightarrow> bool" where
  "installed config cells p p' i \<longleftrightarrow>
     (case instruction_at config i of
        None \<Rightarrow> False
      | Some setup \<Rightarrow>
          if psfd_kind setup = PS_MAP_FD then
            (\<exists>d c. fds p (cells i) = Some (d, c) \<and> fds p' i = Some (d, False))
          else psfd_kind setup = PS_CLOSE_FD \<and> fds p' i = None)"

text \<open>
  What child descriptor \<open>i\<close> is in \<open>p'\<close>, against the process \<open>p\<close> before the descriptors were
  arranged: for a \<open>PS_MAP_FD\<close> instruction it is open without close-on-exec, on the
  description the source had in \<open>p\<close> if the source was open there; for a \<open>PS_CLOSE_FD\<close>
  instruction it is closed.
\<close>

definition arranged :: "ps_process_configuration \<Rightarrow> proc \<Rightarrow> proc \<Rightarrow> int \<Rightarrow> bool" where
  "arranged config p p' i \<longleftrightarrow>
     (case instruction_at config i of
        None \<Rightarrow> False
      | Some setup \<Rightarrow>
          if psfd_kind setup = PS_MAP_FD then
            (\<exists>d. fds p' i = Some (d, False)
                  \<and> (\<forall>d0 c0. fds p (psfd_parent_fd setup) = Some (d0, c0) \<longrightarrow> d = d0))
          else psfd_kind setup = PS_CLOSE_FD \<and> fds p' i = None)"

text \<open>
  A relation between the process before a stage of the child and the process after it,
  whether the stage goes on or jumps to \<open>write_fail\<close>; and the stages whose error records
  have a non-zero kind.
\<close>

definition keeps :: "(proc \<Rightarrow> proc \<Rightarrow> bool) \<Rightarrow> proc \<Rightarrow> proc step \<Rightarrow> bool" where
  "keeps R p r \<longleftrightarrow>
     (\<forall>p'. r = Next p' \<longrightarrow> R p p') \<and> (\<forall>error p'. r = Write_Fail error p' \<longrightarrow> R p p')"

definition fails_with_kind :: "'a step \<Rightarrow> bool" where
  "fails_with_kind r \<longleftrightarrow> (\<forall>error p'. r = Write_Fail error p' \<longrightarrow> pse_kind error \<noteq> 0)"

text \<open>
  The child's side of a call, seen through the outcome of \<open>ps_spawn_process\<close>: a descriptor
  of the child when \<open>execve\<close> is called and after it has succeeded, and the exit status
  with the destination of the error record when the child exits instead.
\<close>

definition child_at_exec :: "spawn_outcome option \<Rightarrow> int \<Rightarrow> (ofd \<times> bool) option option" where
  "child_at_exec outcome fd =
     (case outcome of Some (In_Child (Exec p)) \<Rightarrow> Some (fds p fd) | _ \<Rightarrow> None)"

definition child_after_exec :: "spawn_outcome option \<Rightarrow> int \<Rightarrow> (ofd \<times> bool) option option"
  where
  "child_after_exec outcome fd =
     (case outcome of Some (In_Child (Exec p)) \<Rightarrow> Some (after_exec p fd) | _ \<Rightarrow> None)"

definition child_exit :: "spawn_outcome option \<Rightarrow> (int \<times> (ofd \<times> ps_error) option) option" where
  "child_exit outcome =
     (case outcome of
        Some (In_Child (Exit status written p)) \<Rightarrow> Some (status, written)
      | _ \<Rightarrow> None)"

text \<open>
  A process with the three standard descriptors open, room for sixteen descriptors and a
  handler installed for every signal.
\<close>

definition std_proc :: proc where
  "std_proc =
     \<lparr>fds = [0 \<mapsto> (Open_File 0, False), 1 \<mapsto> (Open_File 1, False),
             2 \<mapsto> (Open_File 2, False)],
      rlimit_nofile = 16, errno = 0, sigmask = {}, dispositions = (\<lambda>signo. Handler 1),
      cwd = ''/'', session_leader = False\<rparr>"

text \<open>
  What \<open>*out_error\<close> holds after a failed call, given what \<open>out_error\<close> was: nothing for a
  null pointer, and a record of non-zero kind otherwise.
\<close>

definition reports_failure :: "ps_error option \<Rightarrow> ps_error option \<Rightarrow> bool" where
  "reports_failure out_error out_error' \<longleftrightarrow>
     (case out_error' of
        None \<Rightarrow> out_error = None
      | Some error \<Rightarrow> out_error \<noteq> None \<and> pse_kind error \<noteq> 0)"

text \<open>The pid and \<open>*out_error\<close> of a call that returned.\<close>

definition returned :: "spawn_outcome option \<Rightarrow> (int \<times> ps_error option) option" where
  "returned outcome =
     (case outcome of Some (Returned pid out_error p) \<Rightarrow> Some (pid, out_error) | _ \<Rightarrow> None)"

definition trapped :: "spawn_outcome option \<Rightarrow> bool" where
  "trapped outcome = (case outcome of Some Trapped \<Rightarrow> True | _ \<Rightarrow> False)"

text \<open>
  The outcome of a call with a null \<open>out_error\<close> beside the outcome of the same call with a
  pointer to a record: they agree on everything but \<open>*out_error\<close>, except that the call
  with the record may trap where the other returns 0.
\<close>

definition same_but_for_error :: "spawn_outcome option \<Rightarrow> spawn_outcome option \<Rightarrow> bool" where
  "same_but_for_error with_null with_record \<longleftrightarrow>
     (case with_null of
        None \<Rightarrow> with_record = None
      | Some (Returned pid out_error p) \<Rightarrow>
          out_error = None
          \<and> (case with_record of
                Some (Returned pid' out_error' p') \<Rightarrow>
                  pid' = pid \<and> p' = p \<and> out_error' \<noteq> None
              | Some Trapped \<Rightarrow> pid = 0
              | _ \<Rightarrow> False)
      | Some Trapped \<Rightarrow> with_record = Some Trapped
      | Some Null_Dereference \<Rightarrow> False
      | Some (In_Child c) \<Rightarrow> with_record = Some (In_Child c))"

text \<open>
  An all-zero record (\<open>ps_error error = { 0 }\<close>); the record a child writes when \<open>execve\<close>
  fails with \<open>ENOENT\<close>; a child for which every call succeeds; a parent for which every
  call succeeds, the fork returns pid 77 and the error pipe is at its end at once; a
  configuration without descriptor instructions; one that swaps descriptors 1 and 2 and
  closes descriptor 0.
\<close>

definition zero_error :: ps_error where
  "zero_error =
     \<lparr>pse_kind = 0, pse_code = 0, pse_file = None, pse_line = 0, pse_extra_info = 0\<rparr>"

definition enoent_report :: ps_error where
  "enoent_report =
     \<lparr>pse_kind = PS_ERROR_KIND_EXECVE, pse_code = 2, pse_file = Some ''spawner.c'',
      pse_line = 191, pse_extra_info = 0\<rparr>"

definition quiet_child :: child_env where
  "quiet_child =
     \<lparr>ce_signal = (\<lambda>signo. None), ce_sigprocmask = None, ce_setsid = (77, 0),
      ce_dup = (\<lambda>child_fd. None), ce_dup2 = (\<lambda>child_fd. None), ce_has_close_range = True,
      ce_close_range = None, ce_fd_dir = \<lparr>de_open = None, de_reads = []\<rparr>,
      ce_chdir = None, ce_execve = None\<rparr>"

definition quiet_parent :: spawn_env where
  "quiet_parent =
     \<lparr>se_pipe = None, se_cloexec_read = None, se_cloexec_write = None, se_calloc = True,
      se_mutex_lock = 0, se_sigmask_block = 0, se_old_sigmask = {}, se_fork = (77, 0),
      se_sigmask_restore = 0, se_mutex_unlock = 0,
      se_reads = [\<lparr>ra_result = 0, ra_data = zero_error, ra_errno = 0\<rparr>],
      se_waitpids = [], se_child = quiet_child, se_ndebug = False\<rparr>"

definition plain_config :: ps_process_configuration where
  "plain_config =
     \<lparr>psc_path = ''/bin/true'', psc_argv = [''true''], psc_env = [], psc_cwd = None,
      psc_fd_setup_count = 0, psc_fd_setup_instructions = [],
      psc_new_session = False, psc_close_other_fds = False\<rparr>"

definition swap_config :: ps_process_configuration where
  "swap_config =
     plain_config
       \<lparr>psc_fd_setup_count := 3,
        psc_fd_setup_instructions :=
          [\<lparr>psfd_kind = PS_CLOSE_FD, psfd_parent_fd = 0\<rparr>,
           \<lparr>psfd_kind = PS_MAP_FD, psfd_parent_fd = 2\<rparr>,
           \<lparr>psfd_kind = PS_MAP_FD, psfd_parent_fd = 1\<rparr>],
        psc_close_other_fds := True\<rparr>"

text \<open>
  The child's side of the fork of \<open>quiet_parent\<close>. A configuration whose second source,
  descriptor 5, is not open in \<open>std_proc\<close>; one with five instructions, the last two of
  which close descriptors 3 and 4.
\<close>

definition child_side :: spawn_env where
  "child_side = quiet_parent\<lparr>se_fork := (0, 0)\<rparr>"


definition five_config :: ps_process_configuration where
  "five_config =
     plain_config
       \<lparr>psc_fd_setup_count := 5,
        psc_fd_setup_instructions :=
          [\<lparr>psfd_kind = PS_MAP_FD, psfd_parent_fd = 0\<rparr>,
           \<lparr>psfd_kind = PS_MAP_FD, psfd_parent_fd = 1\<rparr>,
           \<lparr>psfd_kind = PS_MAP_FD, psfd_parent_fd = 2\<rparr>,
           \<lparr>psfd_kind = PS_CLOSE_FD, psfd_parent_fd = 0\<rparr>,
           \<lparr>psfd_kind = PS_CLOSE_FD, psfd_parent_fd = 0\<rparr>]\<rparr>"

text \<open>
  A configuration with five instructions, the last of which maps descriptor 1 onto
  descriptor 4; a child for which \<open>execve\<close> fails with \<open>ENOENT\<close>.
\<close>

definition overwrite_config :: ps_process_configuration where
  "overwrite_config =
     plain_config
       \<lparr>psc_fd_setup_count := 5,
        psc_fd_setup_instructions :=
          [\<lparr>psfd_kind = PS_MAP_FD, psfd_parent_fd = 0\<rparr>,
           \<lparr>psfd_kind = PS_MAP_FD, psfd_parent_fd = 1\<rparr>,
           \<lparr>psfd_kind = PS_MAP_FD, psfd_parent_fd = 2\<rparr>,
           \<lparr>psfd_kind = PS_CLOSE_FD, psfd_parent_fd = 0\<rparr>,
           \<lparr>psfd_kind = PS_MAP_FD, psfd_parent_fd = 1\<rparr>]\<rparr>"

definition no_program :: child_env where
  "no_program = quiet_child\<lparr>ce_execve := Some 2\<rparr>"

text \<open>
  The two sides of a fork together. The parent closes its own descriptor of the write end
  before it reads, so what its reads of the error pipe return is decided by the child: a
  record that the child wrote into the pipe is read in full (it is shorter than
  \<open>PIPE_BUF\<close>), and the pipe is at its end once no descriptor refers to the write end any
  more, which is when the child has exited or trapped, or has passed \<open>execve\<close> without a
  descriptor of the write end left open. While the new program holds the write end the
  read does not return; nothing is known of a child whose behaviour is undefined. The
  descriptors of a process lie below its descriptor limit.
\<close>

definition end_of_pipe :: read_answer where
  "end_of_pipe = \<lparr>ra_result = 0, ra_data = zero_error, ra_errno = 0\<rparr>"

definition holds_write_end :: "proc \<Rightarrow> bool" where
  "holds_write_end p \<longleftrightarrow>
     list_ex (\<lambda>fd. case after_exec p fd of
                      None \<Rightarrow> False
                    | Some (d, cloexec) \<Rightarrow> d = Error_Pipe_Write)
       [0..rlimit_nofile p - 1]"

definition error_pipe_reads :: "child_outcome \<Rightarrow> read_answer list" where
  "error_pipe_reads c =
     (case c of
        Exec p \<Rightarrow> if holds_write_end p then [] else [end_of_pipe]
      | Exit status written p \<Rightarrow>
          (case written of
             None \<Rightarrow> [end_of_pipe]
           | Some (d, error) \<Rightarrow>
               if d = Error_Pipe_Write
               then [\<lparr>ra_result = sizeof_ps_error, ra_data = error, ra_errno = 0\<rparr>,
                     end_of_pipe]
               else [end_of_pipe])
      | Child_Trap \<Rightarrow> [end_of_pipe]
      | Child_Undefined \<Rightarrow> [])"

text \<open>
  The caller's side of a call, with the reads of the error pipe answered by what the child
  of that same call does.
\<close>

definition spawn_with_child ::
  "spawn_env \<Rightarrow> ps_process_configuration \<Rightarrow> ps_error option \<Rightarrow> proc \<Rightarrow> spawn_outcome option"
  where
  "spawn_with_child env config out_error p =
     (case ps_spawn_process (env\<lparr>se_fork := (0, 0)\<rparr>) config out_error p of
        Some (In_Child c) \<Rightarrow>
          ps_spawn_process (env\<lparr>se_reads := error_pipe_reads c\<rparr>) config out_error p
      | _ \<Rightarrow> ps_spawn_process env config out_error p)"

section \<open>Properties of the exit-status decoder\<close>

lemma WTERMSIG_bound: "unat (WTERMSIG s) < 128"
proof -
  have "WTERMSIG s \<le> 0x7f"
    unfolding WTERMSIG_def by (rule word_and_le1)
  then show ?thesis
    by (simp add: word_le_nat_alt)
qed

lemma sint_byte_small: "m < 128 \<Longrightarrow> sint (of_nat m :: 8 word) = int m"
  by (simp add: signed_of_nat signed_take_bit_int_eq_self)

lemma ucast_byte_succ:
  assumes "unat (x :: c_int) < 128"
  shows "(ucast (x + 1) :: 8 word) = of_nat (unat x + 1)"
proof -
  have "unat (x + 1) = unat x + 1"
    using assms by (simp add: unat_word_ariths)
  moreover have "(ucast (x + 1) :: 8 word) = of_nat (unat (x + 1))"
    by (simp only: of_nat_unat)
  ultimately show ?thesis
    by (simp only:)
qed

text \<open>A status is a signal exit exactly when its low seven bits are between 1 and 126.\<close>

lemma WIFSIGNALED_iff:
  "WIFSIGNALED s \<longleftrightarrow> 1 \<le> unat (WTERMSIG s) \<and> unat (WTERMSIG s) \<le> 126"
proof -
  define n where "n = unat (WTERMSIG s)"
  have n: "n < 128"
    unfolding n_def by (rule WTERMSIG_bound)
  have u: "(ucast ((s AND 0x7f) + 1 :: c_int) :: 8 word) = of_nat (n + 1)"
    using ucast_byte_succ [of "WTERMSIG s"] n unfolding n_def WTERMSIG_def by simp
  show ?thesis
  proof (cases "n = 127")
    case True
    then show ?thesis
      using u unfolding WIFSIGNALED_def n_def [symmetric] by simp
  next
    case False
    then have "n + 1 < 128"
      using n by simp
    then have "sint (of_nat (n + 1) :: 8 word) = int (n + 1)"
      by (rule sint_byte_small)
    then show ?thesis
      using u False n unfolding WIFSIGNALED_def n_def [symmetric]
      by (simp add: drop_bit_eq_div) presburger
  qed
qed

lemma WIFEXITED_iff: "WIFEXITED s \<longleftrightarrow> unat (WTERMSIG s) = 0"
  by (simp add: WIFEXITED_def unat_eq_0)

lemma exited_not_signaled: "\<not> (WIFEXITED s \<and> WIFSIGNALED s)"
  by (simp add: WIFEXITED_iff WIFSIGNALED_iff)

text \<open>
  Claim C3. \<open>ps_convert_exit_status\<close> is defined on every status. It reports
  \<open>has_exited\<close> exactly when the status is a normal exit or a signal exit; a normal exit
  gives \<open>is_exit_code\<close> and the exit code, a signal exit gives no \<open>is_exit_code\<close> and the
  signal number, every other status gives \<open>has_exited = false\<close>, \<open>is_exit_code = false\<close>
  and code \<open>-1\<close>; no status is both a normal exit and a signal exit.
\<close>

theorem ps_convert_exit_status_decodes:
  "(out_has_exited (ps_convert_exit_status s) \<longleftrightarrow> WIFEXITED s \<or> WIFSIGNALED s)
   \<and> (WIFEXITED s \<longrightarrow>
        out_is_exit_code (ps_convert_exit_status s)
        \<and> out_code (ps_convert_exit_status s) = WEXITSTATUS s)
   \<and> (WIFSIGNALED s \<longrightarrow>
        \<not> out_is_exit_code (ps_convert_exit_status s)
        \<and> out_code (ps_convert_exit_status s) = WTERMSIG s)
   \<and> (\<not> WIFEXITED s \<and> \<not> WIFSIGNALED s \<longrightarrow>
        \<not> out_is_exit_code (ps_convert_exit_status s)
        \<and> sint (out_code (ps_convert_exit_status s)) = - 1)
   \<and> \<not> (WIFEXITED s \<and> WIFSIGNALED s)"
  using exited_not_signaled [of s]
  by (auto simp: ps_convert_exit_status_def)

theorem ps_convert_exit_status_decodes_witness:
  "WIFEXITED 0x100 \<and> out_has_exited (ps_convert_exit_status 0x100)
   \<and> out_is_exit_code (ps_convert_exit_status 0x100)
   \<and> out_code (ps_convert_exit_status 0x100) = 1
   \<and> WIFSIGNALED 9 \<and> out_has_exited (ps_convert_exit_status 9)
   \<and> \<not> out_is_exit_code (ps_convert_exit_status 9)
   \<and> out_code (ps_convert_exit_status 9) = 9
   \<and> \<not> WIFEXITED 0x137f \<and> \<not> WIFSIGNALED 0x137f
   \<and> \<not> out_has_exited (ps_convert_exit_status 0x137f)
   \<and> \<not> out_is_exit_code (ps_convert_exit_status 0x137f)
   \<and> sint (out_code (ps_convert_exit_status 0x137f)) = - 1"
proof -
  have e: "WIFEXITED 0x100"
    by (simp add: WIFEXITED_def WTERMSIG_def)
  have x: "WEXITSTATUS 0x100 = 1"
    by (simp add: WEXITSTATUS_def)
  have s: "WIFSIGNALED 9"
    by (simp add: WIFSIGNALED_def)
  have t: "WTERMSIG 9 = 9"
    by (simp add: WTERMSIG_def)
  have n: "\<not> WIFEXITED 0x137f" "\<not> WIFSIGNALED 0x137f"
    by (simp_all add: WIFEXITED_def WTERMSIG_def WIFSIGNALED_def)
  show ?thesis
    using e x s t n
      ps_convert_exit_status_decodes [of "0x100"]
      ps_convert_exit_status_decodes [of 9]
      ps_convert_exit_status_decodes [of "0x137f"]
    by simp
qed

section \<open>Properties of the signal mask helper\<close>

lemma delset_step_valid:
  "1 \<le> signo \<Longrightarrow> signo < NSIG \<Longrightarrow> delset_step signo (r, m, p) = (r, m - {signo}, p)"
  by (simp add: delset_step_def sigdelset_def)

lemma seriously_wrong_mask_eq:
  "seriously_wrong_mask p =
     (0, {1..<NSIG}
           - {SIGABRT, SIGBUS, SIGFPE, SIGILL, SIGKILL, SIGSEGV, SIGSTOP, SIGSYS, SIGTRAP},
      p)"
  unfolding seriously_wrong_mask_def sigfillset_def
  by (simp add: delset_step_def sigdelset_def signal_defs) auto

text \<open>
  Claim C9. The mask the helper builds holds every signal number except exactly abort,
  bus, FPE, illegal, kill, segv, stop, sys and trap, and building it reports no error.
  The helper returns a non-zero value exactly when \<open>pthread_sigmask\<close> does; when that call
  succeeds the mask is added to the mask of the calling thread and the prior mask is in
  the caller's slot, and when it fails both are as before.
\<close>

theorem block_everything_blocks:
  "fst (seriously_wrong_mask p) = 0
   \<and> (\<forall>signo. signo \<in> fst (snd (seriously_wrong_mask p)) \<longleftrightarrow>
         1 \<le> signo \<and> signo < NSIG
         \<and> signo \<notin> {SIGABRT, SIGBUS, SIGFPE, SIGILL, SIGKILL, SIGSEGV, SIGSTOP, SIGSYS,
                     SIGTRAP})
   \<and> (case block_everything_but_something_went_seriously_wrong_signals ret old_mask p of
         (r, old_mask', p') \<Rightarrow>
           (r \<noteq> 0 \<longleftrightarrow> ret \<noteq> 0)
           \<and> (ret = 0 \<longrightarrow>
                old_mask' = sigmask p
                \<and> sigmask p' =
                    (sigmask p \<union> fst (snd (seriously_wrong_mask p))) - {SIGKILL, SIGSTOP})
           \<and> (ret \<noteq> 0 \<longrightarrow> old_mask' = old_mask \<and> sigmask p' = sigmask p))"
  by (auto simp: seriously_wrong_mask_eq pthread_sigmask_block_def
        block_everything_but_something_went_seriously_wrong_signals_def)

theorem block_everything_blocks_witness:
  "fst (block_everything_but_something_went_seriously_wrong_signals 0 {3} std_proc) = 0
   \<and> fst (snd (block_everything_but_something_went_seriously_wrong_signals 0 {3} std_proc)) = {}
   \<and> 15 \<in> sigmask (snd (snd
            (block_everything_but_something_went_seriously_wrong_signals 0 {3} std_proc)))
   \<and> SIGSEGV \<notin> sigmask (snd (snd
            (block_everything_but_something_went_seriously_wrong_signals 0 {3} std_proc)))
   \<and> fst (block_everything_but_something_went_seriously_wrong_signals EINVAL {3} std_proc) \<noteq> 0
   \<and> fst (snd (block_everything_but_something_went_seriously_wrong_signals EINVAL {3} std_proc))
       = {3}
   \<and> sigmask (snd (snd
         (block_everything_but_something_went_seriously_wrong_signals EINVAL {3} std_proc))) = {}"
proof -
  have m: "(15::int) \<in> fst (snd (seriously_wrong_mask std_proc))"
    "SIGSEGV \<notin> fst (snd (seriously_wrong_mask std_proc))"
    using block_everything_blocks [of std_proc 0 "{3}"] by (simp_all add: signal_defs)
  have s: "sigmask std_proc = {}"
    by (simp add: std_proc_def)
  have e: "EINVAL \<noteq> 0"
    by (simp add: EINVAL_def)
  show ?thesis
    using m s e block_everything_blocks [of std_proc 0 "{3}"]
      block_everything_blocks [of std_proc EINVAL "{3}"]
    by (auto split: prod.splits)
qed

section \<open>Properties of the signal-disposition reset\<close>

declare reset_signal_handlers.simps [simp del]

lemma dispositions_same:
  "f = dispositions p \<Longrightarrow> p = p\<lparr>dispositions := f\<rparr>"
  by simp

lemma dispositions_cong:
  "f = g \<Longrightarrow> p\<lparr>errno := e, dispositions := f\<rparr> = p\<lparr>errno := e, dispositions := g\<rparr>"
  by simp

text \<open>When no call of \<open>signal\<close> fails, the loop resets every signal from \<open>n\<close> on.\<close>

lemma reset_all:
  "(\<forall>s. n \<le> s \<and> resettable s \<longrightarrow> sig_fault s = None) \<Longrightarrow>
   reset_signal_handlers sig_fault n p =
     Next (p\<lparr>dispositions :=
              (\<lambda>s. if n \<le> s \<and> resettable s then SIG_DFL else dispositions p s)\<rparr>)"
proof (induction sig_fault n p rule: reset_signal_handlers.induct)
  case (1 sig_fault signo p)
  show ?case
  proof (cases "signo < PS_SIG_MAX")
    case False
    then show ?thesis
      apply (subst reset_signal_handlers.simps)
      apply simp
      apply (rule dispositions_same)
      apply (auto simp: fun_eq_iff resettable_def)
      done
  next
    case lt: True
    show ?thesis
    proof (cases "signo = SIGKILL \<or> signo = SIGSTOP")
      case True
      have "\<forall>s. signo + 1 \<le> s \<and> resettable s \<longrightarrow> sig_fault s = None"
        using "1.prems" by auto
      from "1.IH"(1) [OF lt True this] True lt show ?thesis
        apply (subst reset_signal_handlers.simps)
        apply (simp add: fun_eq_iff resettable_def)
        apply (rule arg_cong [where f = "\<lambda>f. p\<lparr>dispositions := f\<rparr>"])
        apply (auto simp: fun_eq_iff)
        done
    next
      case False
      have none: "sig_fault signo = None"
        using "1.prems" lt False by (simp add: resettable_def)
      have rest: "\<forall>s. signo + 1 \<le> s \<and> resettable s \<longrightarrow> sig_fault s = None"
        using "1.prems" by auto
      have sd: "signal_dfl (sig_fault signo) signo p =
                  (True, p\<lparr>dispositions := (dispositions p)(signo := SIG_DFL)\<rparr>)"
        by (simp add: signal_dfl_def none)
      from "1.IH"(2) [OF lt False sd [symmetric] TrueI rest] False lt sd show ?thesis
        apply (subst reset_signal_handlers.simps)
        apply (simp add: resettable_def)
        apply (rule arg_cong [where f = "\<lambda>f. p\<lparr>dispositions := f\<rparr>"])
        apply (auto simp: fun_eq_iff)
        done
    qed
  qed
qed

text \<open>
  When the first failing call is the one for \<open>s\<close>, the signals before \<open>s\<close> are reset and the
  loop ends there: by \<open>break\<close> for \<open>EINVAL\<close>, by the jump to \<open>write_fail\<close> otherwise.
\<close>

lemma reset_fault:
  assumes "n \<le> s" and "resettable s" and "sig_fault s = Some e"
    and "\<forall>t. n \<le> t \<and> t < s \<and> resettable t \<longrightarrow> sig_fault t = None"
  shows "reset_signal_handlers sig_fault n p =
     (let p' = p\<lparr>errno := e,
                  dispositions :=
                    (\<lambda>t. if n \<le> t \<and> t < s \<and> resettable t then SIG_DFL
                         else dispositions p t)\<rparr>
      in if e = EINVAL then Next p'
         else Write_Fail
                ((MAKE_PS_ERROR_FROM_ERRNO PS_ERROR_KIND_SIGNAL 94 p')
                   \<lparr>pse_extra_info := s\<rparr>) p')"
  using assms
proof (induction sig_fault n p rule: reset_signal_handlers.induct)
  case (1 sig_fault signo p)
  have lt: "signo < PS_SIG_MAX"
    using "1.prems" by (simp add: resettable_def)
  show ?case
  proof (cases "signo = s")
    case True
    then have ns: "\<not> (signo = SIGKILL \<or> signo = SIGSTOP)"
      using "1.prems" by (simp add: resettable_def)
    have same: "p\<lparr>errno := e\<rparr> = p\<lparr>errno := e, dispositions :=
        (\<lambda>t. if s \<le> t \<and> t < s \<and> resettable t then SIG_DFL else dispositions p t)\<rparr>"
      by (rule dispositions_same) (auto simp: fun_eq_iff)
    show ?thesis
      using True lt ns "1.prems"(3) same
      apply (subst reset_signal_handlers.simps)
      apply (simp add: signal_dfl_def Let_def MAKE_PS_ERROR_FROM_ERRNO_def)
      done
  next
    case ne: False
    then have less: "signo + 1 \<le> s"
      using "1.prems" by simp
    have rest: "\<forall>t. signo + 1 \<le> t \<and> t < s \<and> resettable t \<longrightarrow> sig_fault t = None"
      using "1.prems" by auto
    show ?thesis
    proof (cases "signo = SIGKILL \<or> signo = SIGSTOP")
      case True
      have eq: "(\<lambda>t. if signo + 1 \<le> t \<and> t < s \<and> resettable t then SIG_DFL
                     else dispositions p t)
              = (\<lambda>t. if signo \<le> t \<and> t < s \<and> resettable t then SIG_DFL
                     else dispositions p t)"
        using True by (auto simp: fun_eq_iff resettable_def)
      from "1.IH"(1) [OF lt True less "1.prems"(2,3) rest] True lt show ?thesis
        apply (subst reset_signal_handlers.simps)
        apply (simp add: eq)
        done
    next
      case False
      have none: "sig_fault signo = None"
        using "1.prems" lt False ne by (simp add: resettable_def)
      have sd: "signal_dfl (sig_fault signo) signo p =
                  (True, p\<lparr>dispositions := (dispositions p)(signo := SIG_DFL)\<rparr>)"
        by (simp add: signal_dfl_def none)
      from "1.IH"(2) [OF lt False sd [symmetric] TrueI less "1.prems"(2,3) rest]
        False lt sd less
      show ?thesis
        apply (subst reset_signal_handlers.simps)
        apply (simp add: MAKE_PS_ERROR_FROM_ERRNO_def Let_def)
        apply (auto intro!: dispositions_cong simp: fun_eq_iff resettable_def)
        done
    qed
  qed
qed

text \<open>
  Claim C8. The reset of the signal dispositions in the child goes over every signal
  number from 1 up to (and without) \<open>PS_SIG_MAX\<close>, leaving out kill and stop. When every
  call succeeds, each of these signals has the default disposition afterwards and no
  other disposition has changed. When the first call that fails is the one for signal \<open>s\<close>,
  the signals before \<open>s\<close> are reset and the others are not; with \<open>EINVAL\<close> the child goes on,
  with any other \<open>errno\<close> it reports an error of kind \<open>PS_ERROR_KIND_SIGNAL\<close> with that
  \<open>errno\<close> as code and \<open>s\<close> in the extra-info slot.
\<close>

theorem reset_signal_handlers_loop:
  "((\<forall>t. 1 \<le> t \<and> resettable t \<longrightarrow> sig_fault t = None) \<longrightarrow>
      reset_signal_handlers sig_fault 1 p =
        Next (p\<lparr>dispositions :=
                 (\<lambda>t. if 1 \<le> t \<and> resettable t then SIG_DFL else dispositions p t)\<rparr>))
   \<and> (1 \<le> s \<and> resettable s \<and> sig_fault s = Some e
        \<and> (\<forall>t. 1 \<le> t \<and> t < s \<and> resettable t \<longrightarrow> sig_fault t = None) \<longrightarrow>
      reset_signal_handlers sig_fault 1 p =
        (let p' = p\<lparr>errno := e,
                     dispositions :=
                       (\<lambda>t. if 1 \<le> t \<and> t < s \<and> resettable t then SIG_DFL
                            else dispositions p t)\<rparr>
         in if e = EINVAL then Next p'
            else Write_Fail
                   \<lparr>pse_kind = PS_ERROR_KIND_SIGNAL, pse_code = e,
                    pse_file = Some ''spawner.c'', pse_line = 94, pse_extra_info = s\<rparr> p'))"
proof (intro conjI impI)
  assume "\<forall>t. 1 \<le> t \<and> resettable t \<longrightarrow> sig_fault t = None"
  then show "reset_signal_handlers sig_fault 1 p =
        Next (p\<lparr>dispositions :=
                 (\<lambda>t. if 1 \<le> t \<and> resettable t then SIG_DFL else dispositions p t)\<rparr>)"
    by (rule reset_all)
next
  assume a: "1 \<le> s \<and> resettable s \<and> sig_fault s = Some e
        \<and> (\<forall>t. 1 \<le> t \<and> t < s \<and> resettable t \<longrightarrow> sig_fault t = None)"
  then have "reset_signal_handlers sig_fault 1 p =
     (let p' = p\<lparr>errno := e,
                  dispositions :=
                    (\<lambda>t. if 1 \<le> t \<and> t < s \<and> resettable t then SIG_DFL
                         else dispositions p t)\<rparr>
      in if e = EINVAL then Next p'
         else Write_Fail
                ((MAKE_PS_ERROR_FROM_ERRNO PS_ERROR_KIND_SIGNAL 94 p')
                   \<lparr>pse_extra_info := s\<rparr>) p')"
    by (intro reset_fault) simp_all
  then show "reset_signal_handlers sig_fault 1 p =
        (let p' = p\<lparr>errno := e,
                     dispositions :=
                       (\<lambda>t. if 1 \<le> t \<and> t < s \<and> resettable t then SIG_DFL
                            else dispositions p t)\<rparr>
         in if e = EINVAL then Next p'
            else Write_Fail
                   \<lparr>pse_kind = PS_ERROR_KIND_SIGNAL, pse_code = e,
                    pse_file = Some ''spawner.c'', pse_line = 94, pse_extra_info = s\<rparr> p')"
    by (simp add: MAKE_PS_ERROR_FROM_ERRNO_def Let_def)
qed

theorem reset_signal_handlers_loop_witness:
  "(case reset_signal_handlers (\<lambda>t. None) 1 std_proc of
      Next p' \<Rightarrow>
        dispositions p' 1 = SIG_DFL \<and> dispositions p' 31 = SIG_DFL
        \<and> dispositions p' SIGKILL = Handler 1 \<and> dispositions p' SIGSTOP = Handler 1
        \<and> dispositions p' 32 = Handler 1
    | Write_Fail error p' \<Rightarrow> False | Trap \<Rightarrow> False | Undefined \<Rightarrow> False)
   \<and> (case reset_signal_handlers (\<lambda>t. if t = 20 then Some EINVAL else None) 1 std_proc of
      Next p' \<Rightarrow>
        dispositions p' 18 = SIG_DFL \<and> dispositions p' 20 = Handler 1
        \<and> dispositions p' 21 = Handler 1
    | Write_Fail error p' \<Rightarrow> False | Trap \<Rightarrow> False | Undefined \<Rightarrow> False)
   \<and> (case reset_signal_handlers (\<lambda>t. if t = 20 then Some EINTR else None) 1 std_proc of
      Next p' \<Rightarrow> False
    | Write_Fail error p' \<Rightarrow>
        pse_kind error = PS_ERROR_KIND_SIGNAL \<and> pse_code error = EINTR
        \<and> pse_extra_info error = 20 \<and> dispositions p' 18 = SIG_DFL
        \<and> dispositions p' 21 = Handler 1
    | Trap \<Rightarrow> False | Undefined \<Rightarrow> False)"
proof -
  have d: "dispositions std_proc = (\<lambda>signo. Handler 1)"
    by (simp add: std_proc_def)
  have r: "resettable 1" "resettable 31" "resettable 18" "resettable 20"
    "\<not> resettable SIGKILL" "\<not> resettable SIGSTOP" "\<not> resettable 32"
    by (simp_all add: resettable_def PS_SIG_MAX_def signal_defs)
  have n: "EINTR \<noteq> EINVAL"
    by (simp add: EINTR_def EINVAL_def)
  show ?thesis
    using d r n
      reset_signal_handlers_loop [of "\<lambda>t. None" std_proc 20 0]
      reset_signal_handlers_loop [of "\<lambda>t. if t = 20 then Some EINVAL else None" std_proc 20 EINVAL]
      reset_signal_handlers_loop [of "\<lambda>t. if t = 20 then Some EINTR else None" std_proc 20 EINTR]
    by (simp add: Let_def)
qed

section \<open>Properties of the descriptor enumerator\<close>

lemma scan_entries_mono:
  "scan_entries h names = Some h' \<Longrightarrow> h \<le> h'"
proof (induction names arbitrary: h)
  case Nil
  then show ?case by simp
next
  case (Cons d_name names)
  then show ?case
    by (fastforce split: if_splits option.splits)
qed

lemma scan_entries_append:
  "scan_entries h (xs @ ys) =
     (case scan_entries h xs of None \<Rightarrow> None | Some h' \<Rightarrow> scan_entries h' ys)"
  by (induction xs arbitrary: h) (auto split: option.splits)

text \<open>
  The running maximum starts at 0 and never falls, so the \<open>-1\<close> of a failed parse is never
  greater than it.
\<close>

lemma scan_entries_skip:
  "0 \<le> h \<Longrightarrow> positive_int_parse d_name = Some (- 1) \<Longrightarrow>
   scan_entries h (d_name # names) = scan_entries h names"
  by simp

lemma scan_entries_without:
  assumes "0 \<le> h" and "positive_int_parse d_name = Some (- 1)"
  shows "scan_entries h (pre @ d_name # post) = scan_entries h (pre @ post)"
proof (cases "scan_entries h pre")
  case None
  then show ?thesis
    by (simp add: scan_entries_append)
next
  case (Some h')
  then have "0 \<le> h'"
    using assms(1) scan_entries_mono by fastforce
  then show ?thesis
    using Some assms(2)
    by (simp add: scan_entries_append scan_entries_skip del: scan_entries.simps)
qed

lemma read_entries_without:
  assumes "positive_int_parse d_name = Some (- 1)"
  shows "0 \<le> h \<Longrightarrow>
    read_entries h (before @ Dir_Entries (pre @ d_name # post) # later) p =
    read_entries h (before @ Dir_Entries (pre @ post) # later) p"
proof (induction before arbitrary: h)
  case Nil
  then show ?case
    using assms by (simp add: scan_entries_without)
next
  case (Cons a before)
  show ?case
  proof (cases a)
    case (Dir_Entries names)
    show ?thesis
    proof (cases "scan_entries h names")
      case None
      then show ?thesis
        using Dir_Entries by simp
    next
      case (Some h')
      then have "0 \<le> h'"
        using Cons.prems scan_entries_mono by fastforce
      then show ?thesis
        using Dir_Entries Some Cons.IH by simp
    qed
  qed simp_all
qed

lemma read_entries_mono:
  "read_entries h answers p = Some (h', p') \<Longrightarrow> h \<le> h'"
proof (induction h answers p rule: read_entries.induct)
  case (4 h names answers p)
  then show ?case
    by (auto split: option.splits dest: scan_entries_mono)
qed auto

lemma lowest_free_bounds:
  "lowest_free p lo = Some fd \<Longrightarrow> lo \<le> fd \<and> fd < rlimit_nofile p \<and> fds p fd = None"
  unfolding lowest_free_def
  by (auto simp: find_Some_iff)

lemma open_dir_result:
  "open_dir f p = (dir_fd, p1) \<Longrightarrow> dir_fd = - 1 \<or> 0 \<le> dir_fd"
  by (auto simp: open_dir_def split: option.splits dest: lowest_free_bounds)

text \<open>
  Claim C6, as stated, at a concrete directory: the name \<open>abc\<close> does not parse, and the
  enumerator still returns 3, the highest number among the other entries, not the
  sentinel.
\<close>

theorem unparsable_entry_counterexample:
  "positive_int_parse ''abc'' = Some (- 1)
   \<and> map_option fst
        (highest_possibly_open_fd_dir_syscall
           \<lparr>de_open = None, de_reads = [Dir_Entries [''.'', ''..'', ''3'', ''abc'']]\<rparr>
           std_proc) = Some 3"
  by code_simp

text \<open>
  Claim C6, amended. A directory entry whose name does not parse (\<open>positive_int_parse\<close>
  gives \<open>-1\<close>) is skipped: the enumerator returns what it returns for the directory without
  that entry. The enumerator returns a negative value only when the directory could not
  be opened.
\<close>

theorem unparsable_entry_is_skipped:
  "(positive_int_parse d_name = Some (- 1) \<longrightarrow>
      highest_possibly_open_fd_dir_syscall
        \<lparr>de_open = f, de_reads = before @ Dir_Entries (pre @ d_name # post) # later\<rparr> p =
      highest_possibly_open_fd_dir_syscall
        \<lparr>de_open = f, de_reads = before @ Dir_Entries (pre @ post) # later\<rparr> p)
   \<and> (highest_possibly_open_fd_dir_syscall env p = Some (highest, p') \<longrightarrow>
        (highest < 0 \<longleftrightarrow> fst (open_dir (de_open env) p) < 0))"
proof (intro conjI impI)
  assume "positive_int_parse d_name = Some (- 1)"
  then have "\<And>p1. read_entries 0 (before @ Dir_Entries (pre @ d_name # post) # later) p1 =
      read_entries 0 (before @ Dir_Entries (pre @ post) # later) p1"
    by (intro read_entries_without) simp_all
  then show "highest_possibly_open_fd_dir_syscall
        \<lparr>de_open = f, de_reads = before @ Dir_Entries (pre @ d_name # post) # later\<rparr> p =
      highest_possibly_open_fd_dir_syscall
        \<lparr>de_open = f, de_reads = before @ Dir_Entries (pre @ post) # later\<rparr> p"
    by (simp add: highest_possibly_open_fd_dir_syscall_def split: prod.splits)
next
  assume a: "highest_possibly_open_fd_dir_syscall env p = Some (highest, p')"
  obtain dir_fd p1 where o: "open_dir (de_open env) p = (dir_fd, p1)"
    by (cases "open_dir (de_open env) p")
  then have d: "dir_fd = - 1 \<or> 0 \<le> dir_fd"
    by (rule open_dir_result)
  show "highest < 0 \<longleftrightarrow> fst (open_dir (de_open env) p) < 0"
    using a o d
    by (auto simp: highest_possibly_open_fd_dir_syscall_def split: option.splits
          dest: read_entries_mono)
qed

theorem unparsable_entry_is_skipped_witness:
  "positive_int_parse ''abc'' = Some (- 1)
   \<and> highest_possibly_open_fd_dir_syscall
        \<lparr>de_open = None, de_reads = [Dir_Entries [''3'', ''abc'', ''7'']]\<rparr> std_proc =
      highest_possibly_open_fd_dir_syscall
        \<lparr>de_open = None, de_reads = [Dir_Entries [''3'', ''7'']]\<rparr> std_proc
   \<and> map_option fst
        (highest_possibly_open_fd_dir_syscall
           \<lparr>de_open = None, de_reads = [Dir_Entries [''3'', ''7'']]\<rparr> std_proc) = Some 7
   \<and> \<not> fst (open_dir None std_proc) < 0"
proof -
  let ?env = "\<lparr>de_open = None, de_reads = [Dir_Entries [''3'', ''7'']]\<rparr>"
  have n: "positive_int_parse ''abc'' = Some (- 1)"
    by code_simp
  have v: "map_option fst (highest_possibly_open_fd_dir_syscall ?env std_proc) = Some 7"
    by code_simp
  then obtain p' where r: "highest_possibly_open_fd_dir_syscall ?env std_proc = Some (7, p')"
    by (cases "highest_possibly_open_fd_dir_syscall ?env std_proc") auto
  show ?thesis
    using n v r
      unparsable_entry_is_skipped
        [of "''abc''" None "[]" "[''3'']" "[''7'']" "[]" std_proc ?env 7 p']
    by simp
qed

text \<open>
  Claim C7, at a concrete directory: two entries, then a read that fails with \<open>EINTR\<close>, then
  one more entry. The read is not started again: the third answer, with descriptor 9, is
  never asked for and the enumerator returns 7.
\<close>

theorem eintr_ends_directory_scan:
  "map_option fst
     (highest_possibly_open_fd_dir_syscall
        \<lparr>de_open = None,
         de_reads = [Dir_Entries [''3'', ''7''], Dir_Error EINTR, Dir_Entries [''9'']]\<rparr>
        std_proc) = Some 7
   \<and> map_option fst
     (highest_possibly_open_fd_dir_syscall
        \<lparr>de_open = None, de_reads = [Dir_Entries [''3'', ''7''], Dir_Entries [''9'']]\<rparr>
        std_proc) = Some 9"
  by code_simp

section \<open>Properties of the parent\<close>

lemma set_out_error_eq:
  "set_out_error out_error error =
     Valid (case out_error of None \<Rightarrow> None | Some old \<Rightarrow> Some error)"
  by (simp add: set_out_error_def assign_def split: option.splits)

lemma returned_Some:
  "returned outcome = Some (pid, out_error) \<Longrightarrow> \<exists>p. outcome = Some (Returned pid out_error p)"
  by (auto simp: returned_def split: option.splits spawn_outcome.splits)

subsection \<open>What a call that returns has done to \<open>*out_error\<close>\<close>

lemma finish_returned:
  "finish error_pid_fd out_error p = Returned pid out_error' p' \<Longrightarrow>
   pid = 0 \<and> out_error' = out_error \<and> reports_failure out_error out_error'"
  by (auto simp: finish_def Let_def reports_failure_def split: if_splits option.splits)

lemma wait_for_child_returned:
  "wait_for_child ndebug err answers error_pid_fd out_error p = Some (Returned pid out_error' p')
   \<Longrightarrow> pid = 0 \<and> reports_failure out_error out_error'"
proof (induction answers arbitrary: p)
  case Nil
  then show ?case by simp
next
  case (Cons a answers)
  obtain wp_result e where a: "a = (wp_result, e)"
    by (cases a)
  show ?case
    using Cons.prems Cons.IH unfolding a
    by (auto simp: Let_def set_out_error_eq reports_failure_def
          split: if_splits option.splits dest!: finish_returned)
qed

lemma error_cleanup_returned:
  "error_cleanup env pid0 err error_pid_fd out_error p = Some (Returned pid out_error' p')
   \<Longrightarrow> pid = 0 \<and> reports_failure out_error out_error'"
  by (auto simp: error_cleanup_def split: if_splits
        dest: finish_returned wait_for_child_returned)

lemma fail_with_returned:
  "fail_with env pid0 err error_pid_fd out_error error p = Some (Returned pid out_error' p')
   \<Longrightarrow> pid = 0 \<and> reports_failure out_error out_error'"
  by (auto simp: fail_with_def set_out_error_eq reports_failure_def
        split: option.splits dest!: error_cleanup_returned)

lemma read_from_child_returned:
  "read_from_child env pid0 err answers error_pid_fd out_error p =
     Some (Returned pid out_error' p')
   \<Longrightarrow> (pid = pid0 \<and> out_error' = out_error)
       \<or> (pid = 0 \<and> reports_failure out_error out_error')"
proof (induction answers arbitrary: p)
  case Nil
  then show ?case by simp
next
  case (Cons a answers)
  show ?case
    using Cons.prems Cons.IH
    by (auto simp: Let_def split: if_splits dest!: fail_with_returned)
qed

lemma fork_and_report_returned:
  "fork_and_report env config out_error error_pid_fd scratch old_sigmask p =
     Some (Returned pid out_error' p')
   \<Longrightarrow> (0 < pid \<and> pid = fst (se_fork env) \<and> out_error' = out_error)
       \<or> (pid = 0 \<and> reports_failure out_error out_error')"
  by (auto simp: fork_and_report_def split: prod.splits if_splits
        dest!: fail_with_returned read_from_child_returned)

lemma ps_spawn_process_returned:
  "ps_spawn_process env config out_error p = Some (Returned pid out_error' p')
   \<Longrightarrow> (0 < pid \<and> pid = fst (se_fork env) \<and> out_error' = out_error)
       \<or> (pid = 0 \<and> reports_failure out_error out_error')"
  by (auto simp: ps_spawn_process_def split: prod.splits if_splits
        dest!: fail_with_returned fork_and_report_returned)

text \<open>
  The read loop starts over after every failed read; it returns the pid at the end of the
  pipe, and goes to the cleanup with the child's record after a full record.
\<close>

lemma read_from_child_eof:
  "(\<forall>a \<in> set failed. ra_result a < 0) \<Longrightarrow> ra_result eof = 0 \<Longrightarrow>
   returned (read_from_child env pid err (failed @ eof # rest) error_pid_fd out_error p) =
     Some (pid, out_error)"
  by (induction failed arbitrary: p) (auto simp: Let_def returned_def)

lemma read_from_child_report:
  assumes "\<forall>x \<in> set failed. ra_result x < 0" and "ra_result a = sizeof_ps_error"
    and "pse_kind (ra_data a) \<noteq> 0" and "se_waitpids env = (wp_result, e) # later"
    and "0 < wp_result" and "0 < pid"
  shows "returned (read_from_child env pid err (failed @ a # rest) error_pid_fd (Some e0) p) =
           Some (0, Some (ra_data a))"
  using assms(1)
proof (induction failed arbitrary: p)
  case Nil
  then show ?case
    using assms(2-)
    by (simp add: Let_def sizeof_ps_error_def fail_with_def set_out_error_eq error_cleanup_def
          finish_def returned_def)
next
  case (Cons x failed)
  then show ?case
    by (simp add: Let_def)
qed

text \<open>
  From the fork on, the parent returns as soon as a read of the error pipe does not fail:
  the pid at the end of the pipe, and 0 with the child's record after a full record once
  \<open>waitpid\<close> has returned the child.
\<close>

lemma fork_and_report_returns:
  assumes "se_fork env = (pid, e)" and "0 < pid" and "se_sigmask_restore env = 0"
    and "se_mutex_unlock env = 0" and "se_reads env = failed @ a # rest"
    and "\<forall>x \<in> set failed. ra_result x < 0"
  shows "ra_result a = 0 \<Longrightarrow>
      returned (fork_and_report env config out_error error_pid_fd scratch old_sigmask p) =
        Some (pid, out_error)"
    and "ra_result a = sizeof_ps_error \<Longrightarrow> pse_kind (ra_data a) \<noteq> 0 \<Longrightarrow>
      se_waitpids env = (wp_result, e') # later \<Longrightarrow> 0 < wp_result \<Longrightarrow>
      returned (fork_and_report env config (Some e0) error_pid_fd scratch old_sigmask p) =
        Some (0, Some (ra_data a))"
  using assms
  by (simp_all add: fork_and_report_def pthread_sigmask_setmask_def read_from_child_eof
        read_from_child_report)

text \<open>
  Claim C1, as stated, at a concrete call: every system call succeeds, the fork returns
  pid 77 and the error pipe is at its end at once, and \<open>*out_error\<close> holds the record of an
  earlier failure. The call returns 77 and \<open>*out_error\<close> still holds that record, of kind
  1: it has not been zeroed.
\<close>

theorem ps_spawn_process_counterexample:
  "returned (ps_spawn_process quiet_parent plain_config (Some enoent_report) std_proc) =
     Some (77, Some enoent_report)
   \<and> pse_kind enoent_report = 1"
  by code_simp

text \<open>
  Claim C1, amended. For every call of \<open>ps_spawn_process\<close> with a non-null \<open>out_error\<close> that
  returns: either it returns a pid greater than 0, which is the pid the fork gave, and
  \<open>*out_error\<close> is as the caller passed it; or it returns 0 and \<open>*out_error\<close> has a non-zero
  kind.
\<close>

theorem ps_spawn_process_result:
  "ps_spawn_process env config (Some e0) p = Some (Returned pid out_error' p') \<longrightarrow>
     (0 < pid \<and> pid = fst (se_fork env) \<and> out_error' = Some e0)
     \<or> (pid = 0 \<and> (\<exists>error. out_error' = Some error \<and> pse_kind error \<noteq> 0))"
proof
  assume "ps_spawn_process env config (Some e0) p = Some (Returned pid out_error' p')"
  then have "(0 < pid \<and> pid = fst (se_fork env) \<and> out_error' = Some e0)
       \<or> (pid = 0 \<and> reports_failure (Some e0) out_error')"
    by (rule ps_spawn_process_returned)
  then show "(0 < pid \<and> pid = fst (se_fork env) \<and> out_error' = Some e0)
     \<or> (pid = 0 \<and> (\<exists>error. out_error' = Some error \<and> pse_kind error \<noteq> 0))"
    by (auto simp: reports_failure_def split: option.splits)
qed

theorem ps_spawn_process_result_witness:
  "returned (ps_spawn_process quiet_parent swap_config (Some zero_error) std_proc) =
     Some (77, Some zero_error)
   \<and> fst (se_fork quiet_parent) = 77
   \<and> returned
       (ps_spawn_process
          (quiet_parent
             \<lparr>se_reads := [\<lparr>ra_result = 24, ra_data = enoent_report, ra_errno = 0\<rparr>],
              se_waitpids := [(77, 0)]\<rparr>)
          swap_config (Some zero_error) std_proc) = Some (0, Some enoent_report)
   \<and> pse_kind enoent_report \<noteq> 0"
proof -
  let ?failing = "quiet_parent
             \<lparr>se_reads := [\<lparr>ra_result = 24, ra_data = enoent_report, ra_errno = 0\<rparr>],
              se_waitpids := [(77, 0)]\<rparr>"
  have a: "returned (ps_spawn_process quiet_parent swap_config (Some zero_error) std_proc) =
     Some (77, Some zero_error)"
    by code_simp
  have b: "returned (ps_spawn_process ?failing swap_config (Some zero_error) std_proc) =
     Some (0, Some enoent_report)"
    by code_simp
  obtain pa where pa: "ps_spawn_process quiet_parent swap_config (Some zero_error) std_proc =
     Some (Returned 77 (Some zero_error) pa)"
    using returned_Some [OF a] by blast
  obtain pb where pb: "ps_spawn_process ?failing swap_config (Some zero_error) std_proc =
     Some (Returned 0 (Some enoent_report) pb)"
    using returned_Some [OF b] by blast
  show ?thesis
    using a b pa pb
      ps_spawn_process_result [of quiet_parent swap_config zero_error std_proc 77
        "Some zero_error" pa]
      ps_spawn_process_result [of ?failing swap_config zero_error std_proc 0
        "Some enoent_report" pb]
    by simp
qed

text \<open>
  Claim C5, at two concrete calls in which the fork returns pid 77. In the first the child
  sends a full error record and the first \<open>waitpid\<close> fails with \<open>EINTR\<close>: the cleanup loop
  tests \<open>err\<close>, which is 0 there, and not the result of \<open>waitpid\<close>, so the call traps instead
  of waiting again, with and without \<open>NDEBUG\<close>. In the second the read of the error pipe
  fails with \<open>EIO\<close>, an error other than \<open>EINTR\<close>: the read is issued again all the same and
  the call returns the pid when the pipe is at its end.
\<close>

theorem eintr_on_waitpid_traps:
  "trapped
     (ps_spawn_process
        (quiet_parent
           \<lparr>se_reads := [\<lparr>ra_result = 24, ra_data = enoent_report, ra_errno = 0\<rparr>],
            se_waitpids := [(- 1, EINTR), (77, 0)]\<rparr>)
        plain_config (Some zero_error) std_proc)
   \<and> trapped
     (ps_spawn_process
        (quiet_parent
           \<lparr>se_reads := [\<lparr>ra_result = 24, ra_data = enoent_report, ra_errno = 0\<rparr>],
            se_waitpids := [(- 1, EINTR), (77, 0)], se_ndebug := True\<rparr>)
        plain_config (Some zero_error) std_proc)
   \<and> returned
     (ps_spawn_process
        (quiet_parent
           \<lparr>se_reads := [\<lparr>ra_result = - 1, ra_data = zero_error, ra_errno = 5\<rparr>,
                         \<lparr>ra_result = 0, ra_data = zero_error, ra_errno = 0\<rparr>]\<rparr>)
        plain_config (Some zero_error) std_proc) = Some (77, Some zero_error)"
  by code_simp

subsection \<open>A null \<open>out_error\<close>\<close>

lemma same_simple [simp]:
  "same_but_for_error None None"
  "same_but_for_error (Some Trapped) (Some Trapped)"
  "same_but_for_error (Some (In_Child c)) (Some (In_Child c))"
  "same_but_for_error (Some (Returned pid None p')) (Some (Returned pid (Some e) p'))"
  by (simp_all add: same_but_for_error_def)

lemma finish_same:
  "same_but_for_error (Some (finish error_pid_fd None p)) (Some (finish error_pid_fd (Some e) p))"
  by (simp add: same_but_for_error_def finish_def Let_def)

lemma wait_for_child_same:
  "same_but_for_error
     (wait_for_child ndebug err answers error_pid_fd None p)
     (wait_for_child ndebug err answers error_pid_fd (Some e) p)"
proof (induction answers arbitrary: p)
  case Nil
  then show ?case by simp
next
  case (Cons a answers)
  obtain wp_result e' where a: "a = (wp_result, e')"
    by (cases a)
  show ?case
    unfolding a using Cons.IH by (auto simp: Let_def set_out_error_eq finish_same)
qed

lemma error_cleanup_same:
  "same_but_for_error
     (error_cleanup env pid err error_pid_fd None p)
     (error_cleanup env pid err error_pid_fd (Some e) p)"
  by (simp add: error_cleanup_def wait_for_child_same finish_same)

lemma fail_with_same:
  "same_but_for_error
     (fail_with env pid err error_pid_fd None error p)
     (fail_with env pid err error_pid_fd (Some e) error p)"
  by (simp add: fail_with_def set_out_error_eq error_cleanup_same)

lemma read_from_child_same:
  "same_but_for_error
     (read_from_child env pid err answers error_pid_fd None p)
     (read_from_child env pid err answers error_pid_fd (Some e) p)"
proof (induction answers arbitrary: p)
  case Nil
  then show ?case by simp
next
  case (Cons a answers)
  show ?case
    using Cons.IH by (auto simp: Let_def fail_with_same)
qed

lemma fork_and_report_same:
  "same_but_for_error
     (fork_and_report env config None error_pid_fd scratch old_sigmask p)
     (fork_and_report env config (Some e) error_pid_fd scratch old_sigmask p)"
  by (simp add: fork_and_report_def fail_with_same read_from_child_same split: prod.splits)

lemma ps_spawn_process_same:
  "same_but_for_error
     (ps_spawn_process env config None p) (ps_spawn_process env config (Some e) p)"
  by (simp add: ps_spawn_process_def fail_with_same fork_and_report_same split: prod.splits)

text \<open>
  Claim C10. \<open>ps_spawn_process\<close> accepts a null \<open>out_error\<close>: no call writes through a null
  pointer. A call that returns a pid with a record behind \<open>out_error\<close> returns the same
  pid, in the same process state, with a null \<open>out_error\<close>. A call that returns with a
  null \<open>out_error\<close> has written no record, and with a record behind \<open>out_error\<close> it returns
  the same pid or, when the record would have kind 0, traps at the final check, which
  the null pointer skips.
\<close>

theorem null_out_error_accepted:
  "ps_spawn_process env config None p \<noteq> Some Null_Dereference
   \<and> ps_spawn_process env config (Some e0) p \<noteq> Some Null_Dereference
   \<and> (ps_spawn_process env config (Some e0) p = Some (Returned pid out_error' p') \<longrightarrow>
        ps_spawn_process env config None p = Some (Returned pid None p'))
   \<and> (ps_spawn_process env config None p = Some (Returned pid out_error' p') \<longrightarrow>
        out_error' = None
        \<and> (ps_spawn_process env config (Some e0) p = Some Trapped \<and> pid = 0
            \<or> (\<exists>error. ps_spawn_process env config (Some e0) p =
                  Some (Returned pid (Some error) p'))))"
proof -
  let ?null = "ps_spawn_process env config None p"
  let ?given = "ps_spawn_process env config (Some e0) p"
  have same: "same_but_for_error ?null ?given"
    by (rule ps_spawn_process_same)
  show ?thesis
  proof (cases ?null)
    case None
    then show ?thesis
      using same by (simp add: same_but_for_error_def)
  next
    case null: (Some a)
    show ?thesis
    proof (cases ?given)
      case None
      then show ?thesis
        using same null by (cases a) (simp_all add: same_but_for_error_def)
    next
      case (Some b)
      then show ?thesis
        using same null by (cases a; cases b) (auto simp: same_but_for_error_def)
    qed
  qed
qed

theorem null_out_error_accepted_witness:
  "returned (ps_spawn_process quiet_parent plain_config (Some zero_error) std_proc) =
     Some (77, Some zero_error)
   \<and> returned (ps_spawn_process quiet_parent plain_config None std_proc) = Some (77, None)
   \<and> returned
       (ps_spawn_process
          (quiet_parent
             \<lparr>se_reads := [\<lparr>ra_result = 24, ra_data = zero_error, ra_errno = 0\<rparr>],
              se_waitpids := [(77, 0)]\<rparr>)
          plain_config None std_proc) = Some (0, None)
   \<and> trapped
       (ps_spawn_process
          (quiet_parent
             \<lparr>se_reads := [\<lparr>ra_result = 24, ra_data = zero_error, ra_errno = 0\<rparr>],
              se_waitpids := [(77, 0)]\<rparr>)
          plain_config (Some enoent_report) std_proc)"
proof -
  let ?kind0 = "quiet_parent
             \<lparr>se_reads := [\<lparr>ra_result = 24, ra_data = zero_error, ra_errno = 0\<rparr>],
              se_waitpids := [(77, 0)]\<rparr>"
  have a: "returned (ps_spawn_process quiet_parent plain_config (Some zero_error) std_proc) =
     Some (77, Some zero_error)"
    by code_simp
  have b: "returned (ps_spawn_process ?kind0 plain_config None std_proc) = Some (0, None)"
    by code_simp
  have c: "trapped (ps_spawn_process ?kind0 plain_config (Some enoent_report) std_proc)"
    by code_simp
  obtain pa where pa: "ps_spawn_process quiet_parent plain_config (Some zero_error) std_proc =
     Some (Returned 77 (Some zero_error) pa)"
    using returned_Some [OF a] by blast
  obtain pb where pb: "ps_spawn_process ?kind0 plain_config None std_proc =
     Some (Returned 0 None pb)"
    using returned_Some [OF b] by blast
  have "ps_spawn_process quiet_parent plain_config None std_proc = Some (Returned 77 None pa)"
    using pa
      null_out_error_accepted [of quiet_parent plain_config std_proc zero_error 77
        "Some zero_error" pa]
    by simp
  then have d: "returned (ps_spawn_process quiet_parent plain_config None std_proc) =
     Some (77, None)"
    by (simp add: returned_def)
  show ?thesis
    using a b c d pb
      null_out_error_accepted [of ?kind0 plain_config std_proc enoent_report 0 None pb]
    by simp
qed

section \<open>Properties of the two loops over the descriptor instructions\<close>

declare duplicate_up.simps [simp del] install_fds.simps [simp del] close_each.simps [simp del]

lemma fcntl_dupfd_cloexec_failed:
  "fcntl_dupfd_cloexec f fd minfd p = (- 1, p') \<Longrightarrow>
   fds p' = fds p \<and> rlimit_nofile p' = rlimit_nofile p"
  by (auto simp: fcntl_dupfd_cloexec_def split: option.splits prod.splits if_splits
        dest: lowest_free_bounds)

lemma fcntl_dupfd_cloexec_done:
  "fcntl_dupfd_cloexec f fd minfd p = (r, p') \<Longrightarrow> r \<noteq> - 1 \<Longrightarrow>
   \<exists>d c. fds p fd = Some (d, c) \<and> minfd \<le> r \<and> fds p r = None
     \<and> fds p' = (fds p)(r \<mapsto> (d, True)) \<and> rlimit_nofile p' = rlimit_nofile p"
  by (auto simp: fcntl_dupfd_cloexec_def split: option.splits prod.splits if_splits
        dest: lowest_free_bounds)

lemma dup2_failed:
  "dup2 f oldfd newfd p = (- 1, p') \<Longrightarrow> fds p' = fds p \<and> rlimit_nofile p' = rlimit_nofile p"
  by (auto simp: dup2_def split: option.splits prod.splits if_splits)

lemma dup2_done:
  "dup2 f oldfd newfd p = (r, p') \<Longrightarrow> r \<noteq> - 1 \<Longrightarrow> oldfd \<noteq> newfd \<Longrightarrow>
   \<exists>d c. fds p oldfd = Some (d, c) \<and> fds p' = (fds p)(newfd \<mapsto> (d, False))
     \<and> rlimit_nofile p' = rlimit_nofile p"
  by (auto simp: dup2_def split: option.splits prod.splits if_splits)

lemma close_fds:
  "fds (snd (close fd p)) = (fds p)(fd := None)"
  "rlimit_nofile (snd (close fd p)) = rlimit_nofile p"
  by (auto simp: close_def split: option.splits)

lemma duplicated_earlier:
  assumes "duplicated config p1 p' cells i"
    and "\<forall>fd x. fds p fd = Some x \<longrightarrow> fds p1 fd = Some x"
  shows "duplicated config p p' cells i"
proof (cases "instruction_at config i")
  case None
  then show ?thesis
    using assms(1) by (simp add: duplicated_def)
next
  case (Some ins)
  show ?thesis
  proof (cases "psfd_kind ins = PS_MAP_FD")
    case True
    then obtain d where d: "psc_fd_setup_count config \<le> cells i"
      "fds p' (cells i) = Some (d, True)"
      "\<forall>d0 c0. fds p1 (psfd_parent_fd ins) = Some (d0, c0) \<longrightarrow> d = d0"
      using assms(1) Some by (auto simp: duplicated_def)
    have "\<forall>d0 c0. fds p (psfd_parent_fd ins) = Some (d0, c0) \<longrightarrow> d = d0"
      using d(3) assms(2) by blast
    then show ?thesis
      using d(1,2) Some True by (auto simp: duplicated_def)
  next
    case False
    then show ?thesis
      using assms(1) Some by (simp add: duplicated_def)
  qed
qed

lemma duplicate_up_next:
  "duplicate_up dup_fault config k scratch p = Next (scratch', p') \<Longrightarrow>
   scratch = Some cells \<Longrightarrow>
   \<exists>cells'. scratch' = Some cells'
     \<and> (\<forall>fd x. fds p fd = Some x \<longrightarrow> fds p' fd = Some x)
     \<and> (\<forall>fd. fd < psc_fd_setup_count config \<longrightarrow> fds p' fd = fds p fd)
     \<and> rlimit_nofile p' = rlimit_nofile p
     \<and> (\<forall>i. i < k \<longrightarrow> cells' i = cells i)
     \<and> (\<forall>i. k \<le> i \<and> i < psc_fd_setup_count config \<longrightarrow> duplicated config p p' cells' i)"
proof (induction dup_fault config k scratch p arbitrary: cells rule: duplicate_up.induct)
  case (1 dup_fault config child_fd scratch p)
  note sc = "1.prems"(2)
  note run = "1.prems"(1) [unfolded sc]
  show ?case
  proof (cases "child_fd < psc_fd_setup_count config")
    case False
    then show ?thesis
      using run by (subst (asm) duplicate_up.simps) auto
  next
    case lt: True
    then obtain ins where ins: "instruction_at config child_fd = Some ins"
      using run by (subst (asm) duplicate_up.simps) (auto split: option.splits)
    show ?thesis
    proof (cases "psfd_kind ins = PS_MAP_FD")
      case map: True
      obtain r p1 where f: "fcntl_dupfd_cloexec (dup_fault child_fd) (psfd_parent_fd ins)
                       (psc_fd_setup_count config) p = (r, p1)"
        by (cases "fcntl_dupfd_cloexec (dup_fault child_fd) (psfd_parent_fd ins)
                       (psc_fd_setup_count config) p")
      have r: "r \<noteq> - 1"
        using run lt ins map f by (subst (asm) duplicate_up.simps) auto
      have rec: "duplicate_up dup_fault config (child_fd + 1) (Some (cells(child_fd := r))) p1
                   = Next (scratch', p')"
        using run lt ins map f r by (subst (asm) duplicate_up.simps) auto
      from fcntl_dupfd_cloexec_done [OF f r] obtain d c where
        src: "fds p (psfd_parent_fd ins) = Some (d, c)"
        and ge: "psc_fd_setup_count config \<le> r" and free: "fds p r = None"
        and p1: "fds p1 = (fds p)(r \<mapsto> (d, True))"
        and lim: "rlimit_nofile p1 = rlimit_nofile p"
        by blast
      from "1.IH"(1) [OF lt ins map f [symmetric] sc r rec [folded sc] refl]
      obtain cells' where c: "scratch' = Some cells'"
        and keep: "\<forall>fd x. fds p1 fd = Some x \<longrightarrow> fds p' fd = Some x"
        and low: "\<forall>fd. fd < psc_fd_setup_count config \<longrightarrow> fds p' fd = fds p1 fd"
        and lim': "rlimit_nofile p' = rlimit_nofile p1"
        and before: "\<forall>i. i < child_fd + 1 \<longrightarrow> cells' i = (cells(child_fd := r)) i"
        and after: "\<forall>i. child_fd + 1 \<le> i \<and> i < psc_fd_setup_count config \<longrightarrow>
                      duplicated config p1 p' cells' i"
        by auto
      have keep0: "\<forall>fd x. fds p fd = Some x \<longrightarrow> fds p1 fd = Some x"
        using p1 free by auto
      have here: "duplicated config p p' cells' child_fd"
        using before keep p1 ge src ins map by (simp add: duplicated_def)
      have later: "duplicated config p p' cells' i"
        if "child_fd + 1 \<le> i" "i < psc_fd_setup_count config" for i
        using after that keep0 duplicated_earlier by blast
      have all: "\<forall>i. child_fd \<le> i \<and> i < psc_fd_setup_count config \<longrightarrow>
                   duplicated config p p' cells' i"
      proof (intro allI impI)
        fix i assume "child_fd \<le> i \<and> i < psc_fd_setup_count config"
        then show "duplicated config p p' cells' i"
          using here later [of i] by (cases "i = child_fd") auto
      qed
      show ?thesis
        using c keep keep0 low p1 ge lim lim' before all by auto
    next
      case nomap: False
      then have close: "psfd_kind ins = PS_CLOSE_FD"
        using run lt ins by (subst (asm) duplicate_up.simps) (auto split: if_splits)
      have rec: "duplicate_up dup_fault config (child_fd + 1) (Some (cells(child_fd := - 1))) p
                   = Next (scratch', p')"
        using run lt ins nomap close by (subst (asm) duplicate_up.simps) auto
      from "1.IH"(2) [OF lt ins nomap close sc rec refl]
      obtain cells' where c: "scratch' = Some cells'"
        and keep: "\<forall>fd x. fds p fd = Some x \<longrightarrow> fds p' fd = Some x"
        and low: "\<forall>fd. fd < psc_fd_setup_count config \<longrightarrow> fds p' fd = fds p fd"
        and lim': "rlimit_nofile p' = rlimit_nofile p"
        and before: "\<forall>i. i < child_fd + 1 \<longrightarrow> cells' i = (cells(child_fd := - 1)) i"
        and after: "\<forall>i. child_fd + 1 \<le> i \<and> i < psc_fd_setup_count config \<longrightarrow>
                      duplicated config p p' cells' i"
        by auto
      have here: "duplicated config p p' cells' child_fd"
        using before ins nomap close by (simp add: duplicated_def)
      have all: "\<forall>i. child_fd \<le> i \<and> i < psc_fd_setup_count config \<longrightarrow>
                   duplicated config p p' cells' i"
      proof (intro allI impI)
        fix i assume "child_fd \<le> i \<and> i < psc_fd_setup_count config"
        then show "duplicated config p p' cells' i"
          using here after by (cases "i = child_fd") auto
      qed
      show ?thesis
        using c keep low lim' before all by auto
    qed
  qed
qed

lemma duplicate_up_keeps:
  "duplicate_up dup_fault config k scratch p = r \<Longrightarrow>
   r = Next (scratch', p') \<or> r = Write_Fail error p' \<Longrightarrow>
   (\<forall>fd x. fds p fd = Some x \<longrightarrow> fds p' fd = Some x) \<and> rlimit_nofile p' = rlimit_nofile p
   \<and> (\<forall>fd. fds p' fd = fds p fd \<or> (\<exists>d. fds p' fd = Some (d, True)))"
proof (induction dup_fault config k scratch p rule: duplicate_up.induct)
  case (1 dup_fault config child_fd scratch p)
  note run = "1.prems"(1) and res = "1.prems"(2)
  show ?case
  proof (cases "child_fd < psc_fd_setup_count config")
    case False
    then show ?thesis
      using run res by (subst (asm) duplicate_up.simps) auto
  next
    case lt: True
    then obtain ins where ins: "instruction_at config child_fd = Some ins"
      using run res by (subst (asm) duplicate_up.simps) (auto split: option.splits)
    obtain cells where sc: "scratch = Some cells"
      using run res lt ins
      by (subst (asm) duplicate_up.simps) (auto split: option.splits prod.splits if_splits)
    show ?thesis
    proof (cases "psfd_kind ins = PS_MAP_FD")
      case map: True
      obtain d p1 where f: "fcntl_dupfd_cloexec (dup_fault child_fd) (psfd_parent_fd ins)
                       (psc_fd_setup_count config) p = (d, p1)"
        by (cases "fcntl_dupfd_cloexec (dup_fault child_fd) (psfd_parent_fd ins)
                       (psc_fd_setup_count config) p")
      show ?thesis
      proof (cases "d = - 1")
        case True
        then have "r = Write_Fail
                     ((MAKE_PS_ERROR_FROM_ERRNO PS_ERROR_KIND_DUP 122 p1)
                        \<lparr>pse_extra_info := child_fd\<rparr>) p1"
          using run lt ins map f sc by (subst (asm) duplicate_up.simps) auto
        then have "p' = p1"
          using res by auto
        then show ?thesis
          using fcntl_dupfd_cloexec_failed f True by auto
      next
        case False
        then have rec: "duplicate_up dup_fault config (child_fd + 1)
                          (Some (cells(child_fd := d))) p1 = r"
          using run lt ins map f sc by (subst (asm) duplicate_up.simps) auto
        from fcntl_dupfd_cloexec_done [OF f False]
        have keep0: "\<forall>fd x. fds p fd = Some x \<longrightarrow> fds p1 fd = Some x"
          and lim: "rlimit_nofile p1 = rlimit_nofile p"
          and new0: "\<forall>fd. fds p1 fd = fds p fd \<or> (\<exists>d. fds p1 fd = Some (d, True))"
          by auto
        from "1.IH"(1) [OF lt ins map f [symmetric] sc False rec res]
        have keep1: "\<forall>fd x. fds p1 fd = Some x \<longrightarrow> fds p' fd = Some x"
          and lim1: "rlimit_nofile p' = rlimit_nofile p1"
          and new1: "\<forall>fd. fds p' fd = fds p1 fd \<or> (\<exists>d. fds p' fd = Some (d, True))"
          by auto
        have "\<forall>fd. fds p' fd = fds p fd \<or> (\<exists>d. fds p' fd = Some (d, True))"
          using new0 new1 by metis
        then show ?thesis
          using keep0 keep1 lim lim1 by auto
      qed
    next
      case nomap: False
      then have close: "psfd_kind ins = PS_CLOSE_FD"
        using run res lt ins sc by (subst (asm) duplicate_up.simps) (auto split: if_splits)
      have rec: "duplicate_up dup_fault config (child_fd + 1) (Some (cells(child_fd := - 1))) p
                   = r"
        using run lt ins nomap close sc by (subst (asm) duplicate_up.simps) auto
      from "1.IH"(2) [OF lt ins nomap close sc rec res] show ?thesis .
    qed
  qed
qed

lemma install_fds_keeps:
  "install_fds dup2_fault config k scratch p = r \<Longrightarrow>
   r = Next p' \<or> r = Write_Fail error p' \<Longrightarrow>
   (\<forall>fd. psc_fd_setup_count config \<le> fd \<or> fd < k \<longrightarrow> fds p' fd = fds p fd)
   \<and> rlimit_nofile p' = rlimit_nofile p"
proof (induction dup2_fault config k scratch p rule: install_fds.induct)
  case (1 dup2_fault config child_fd scratch p)
  note run = "1.prems"(1) and res = "1.prems"(2)
  show ?case
  proof (cases "child_fd < psc_fd_setup_count config")
    case False
    then show ?thesis
      using run res by (subst (asm) install_fds.simps) auto
  next
    case lt: True
    then obtain ins where ins: "instruction_at config child_fd = Some ins"
      using run res by (subst (asm) install_fds.simps) (auto split: option.splits)
    obtain cells where sc: "scratch = Some cells"
      using run res lt ins
      by (subst (asm) install_fds.simps) (auto split: option.splits prod.splits if_splits)
    show ?thesis
    proof (cases "psfd_kind ins = PS_MAP_FD")
      case map: True
      have above: "cells child_fd > child_fd"
        using run res lt ins map sc
        by (subst (asm) install_fds.simps) (auto split: if_splits)
      obtain err p1 where f: "dup2 (dup2_fault child_fd) (cells child_fd) child_fd p = (err, p1)"
        by (cases "dup2 (dup2_fault child_fd) (cells child_fd) child_fd p")
      show ?thesis
      proof (cases "err = - 1")
        case True
        then have "r = Write_Fail
                     ((MAKE_PS_ERROR_FROM_ERRNO PS_ERROR_KIND_DUP2 142 p1)
                        \<lparr>pse_extra_info := child_fd\<rparr>) p1"
          using run lt ins map f sc above by (subst (asm) install_fds.simps) auto
        then have "p' = p1"
          using res by auto
        then show ?thesis
          using dup2_failed f True by auto
      next
        case False
        then have rec: "install_fds dup2_fault config (child_fd + 1) scratch p1 = r"
          using run lt ins map f sc above by (subst (asm) install_fds.simps) auto
        from dup2_done [OF f False] above
        have p1: "fds p1 = (fds p)(child_fd \<mapsto> (fst (the (fds p (cells child_fd))), False))"
          and lim: "rlimit_nofile p1 = rlimit_nofile p"
          by auto
        have nn: "\<not> \<not> child_fd < cells child_fd"
          using above by simp
        from "1.IH"(1) [OF lt ins map sc nn f [symmetric] False rec res] p1 lim lt
        show ?thesis
          by auto
      qed
    next
      case nomap: False
      then have close: "psfd_kind ins = PS_CLOSE_FD"
        using run res lt ins sc by (subst (asm) install_fds.simps) (auto split: if_splits)
      have m1: "cells child_fd = - 1"
        using run res lt ins nomap close sc
        by (subst (asm) install_fds.simps) (auto split: if_splits)
      have rec: "install_fds dup2_fault config (child_fd + 1) scratch (snd (close child_fd p))
                   = r"
        using run lt ins nomap close sc m1 by (subst (asm) install_fds.simps) auto
      have nn: "\<not> cells child_fd \<noteq> - 1"
        using m1 by simp
      from "1.IH"(2) [OF lt ins nomap close sc nn rec res] lt
      show ?thesis
        by (auto simp: close_fds)
    qed
  qed
qed

lemma install_fds_next:
  "install_fds dup2_fault config k scratch p = Next p' \<Longrightarrow>
   scratch = Some cells \<Longrightarrow>
   (\<forall>i ins. k \<le> i \<and> i < psc_fd_setup_count config
        \<and> instruction_at config i = Some ins \<and> psfd_kind ins = PS_MAP_FD \<longrightarrow>
        psc_fd_setup_count config \<le> cells i) \<Longrightarrow>
   (\<forall>i. k \<le> i \<and> i < psc_fd_setup_count config \<longrightarrow> installed config cells p p' i)"
proof (induction dup2_fault config k scratch p rule: install_fds.induct)
  case (1 dup2_fault config child_fd scratch p)
  note run = "1.prems"(1) and sc = "1.prems"(2) and high = "1.prems"(3)
  show ?case
  proof (cases "child_fd < psc_fd_setup_count config")
    case False
    then show ?thesis
      by auto
  next
    case lt: True
    then obtain ins where ins: "instruction_at config child_fd = Some ins"
      using run by (subst (asm) install_fds.simps) (auto split: option.splits)
    have high': "\<forall>i ins. child_fd + 1 \<le> i \<and> i < psc_fd_setup_count config
        \<and> instruction_at config i = Some ins \<and> psfd_kind ins = PS_MAP_FD \<longrightarrow>
        psc_fd_setup_count config \<le> cells i"
      using high by auto
    show ?thesis
    proof (cases "psfd_kind ins = PS_MAP_FD")
      case map: True
      have above: "cells child_fd > child_fd"
        using run lt ins map sc
        by (subst (asm) install_fds.simps) (auto split: if_splits)
      obtain err p1 where f: "dup2 (dup2_fault child_fd) (cells child_fd) child_fd p = (err, p1)"
        by (cases "dup2 (dup2_fault child_fd) (cells child_fd) child_fd p")
      have ok: "err \<noteq> - 1"
        using run lt ins map f sc above by (subst (asm) install_fds.simps) auto
      have rec: "install_fds dup2_fault config (child_fd + 1) scratch p1 = Next p'"
        using run lt ins map f sc above ok by (subst (asm) install_fds.simps) auto
      from dup2_done [OF f ok] above obtain d c where
        src: "fds p (cells child_fd) = Some (d, c)"
        and p1: "fds p1 = (fds p)(child_fd \<mapsto> (d, False))"
        by auto
      have nn: "\<not> \<not> child_fd < cells child_fd"
        using above by simp
      have later: "\<forall>i. child_fd + 1 \<le> i \<and> i < psc_fd_setup_count config \<longrightarrow>
                     installed config cells p1 p' i"
        using "1.IH"(1) [OF lt ins map sc nn f [symmetric] ok rec sc high'] .
      have kept: "fds p' child_fd = fds p1 child_fd"
        using install_fds_keeps [OF rec, of p'] by auto
      have here: "installed config cells p p' child_fd"
        using kept p1 src ins map by (simp add: installed_def)
      have there: "installed config cells p p' i"
        if i: "child_fd + 1 \<le> i" "i < psc_fd_setup_count config" for i
      proof (cases "instruction_at config i")
        case None
        then show ?thesis
          using later i by (auto simp: installed_def)
      next
        case (Some j)
        show ?thesis
        proof (cases "psfd_kind j = PS_MAP_FD")
          case True
          then have "psc_fd_setup_count config \<le> cells i"
            using high i Some by auto
          then have "fds p1 (cells i) = fds p (cells i)"
            using p1 lt by auto
          then show ?thesis
            using later i Some True by (auto simp: installed_def)
        next
          case False
          then show ?thesis
            using later i Some by (auto simp: installed_def)
        qed
      qed
      show ?thesis
      proof (intro allI impI)
        fix i assume "child_fd \<le> i \<and> i < psc_fd_setup_count config"
        then show "installed config cells p p' i"
          using here there [of i] by (cases "i = child_fd") auto
      qed
    next
      case nomap: False
      then have close: "psfd_kind ins = PS_CLOSE_FD"
        using run lt ins sc by (subst (asm) install_fds.simps) (auto split: if_splits)
      have m1: "cells child_fd = - 1"
        using run lt ins nomap close sc
        by (subst (asm) install_fds.simps) (auto split: if_splits)
      have rec: "install_fds dup2_fault config (child_fd + 1) scratch (snd (close child_fd p))
                   = Next p'"
        using run lt ins nomap close sc m1 by (subst (asm) install_fds.simps) auto
      have nn: "\<not> cells child_fd \<noteq> - 1"
        using m1 by simp
      have later: "\<forall>i. child_fd + 1 \<le> i \<and> i < psc_fd_setup_count config \<longrightarrow>
                     installed config cells (snd (close child_fd p)) p' i"
        using "1.IH"(2) [OF lt ins nomap close sc nn rec sc high'] .
      have kept: "fds p' child_fd = None"
        using install_fds_keeps [OF rec, of p'] by (auto simp: close_fds)
      have here: "installed config cells p p' child_fd"
        using kept ins nomap close by (simp add: installed_def)
      have there: "installed config cells p p' i"
        if i: "child_fd + 1 \<le> i" "i < psc_fd_setup_count config" for i
      proof (cases "instruction_at config i")
        case None
        then show ?thesis
          using later i by (auto simp: installed_def)
      next
        case (Some j)
        show ?thesis
        proof (cases "psfd_kind j = PS_MAP_FD")
          case True
          then have "psc_fd_setup_count config \<le> cells i"
            using high i Some by auto
          then have "fds (snd (close child_fd p)) (cells i) = fds p (cells i)"
            using lt by (auto simp: close_fds)
          then show ?thesis
            using later i Some True by (auto simp: installed_def)
        next
          case False
          then show ?thesis
            using later i Some by (auto simp: installed_def)
        qed
      qed
      show ?thesis
      proof (intro allI impI)
        fix i assume "child_fd \<le> i \<and> i < psc_fd_setup_count config"
        then show "installed config cells p p' i"
          using here there [of i] by (cases "i = child_fd") auto
      qed
    qed
  qed
qed

section \<open>What the other stages of the child do to the descriptors\<close>

lemma reset_signal_handlers_fds:
  "reset_signal_handlers sig_fault n p = r \<Longrightarrow> r = Next p' \<or> r = Write_Fail error p' \<Longrightarrow>
   fds p' = fds p \<and> rlimit_nofile p' = rlimit_nofile p"
proof (induction sig_fault n p rule: reset_signal_handlers.induct)
  case (1 sig_fault signo p)
  show ?case
    using "1.prems" "1.IH"
    by (subst (asm) reset_signal_handlers.simps)
       (auto simp: signal_dfl_def split: if_splits option.splits)
qed

lemma reset_signal_mask_fds:
  "reset_signal_mask env p = r \<Longrightarrow> r = Next p' \<or> r = Write_Fail error p' \<Longrightarrow>
   fds p' = fds p \<and> rlimit_nofile p' = rlimit_nofile p"
  by (auto simp: reset_signal_mask_def split: option.splits)

lemma new_session_fds:
  "new_session env config p = r \<Longrightarrow> r = Next p' \<or> r = Write_Fail error p' \<Longrightarrow>
   fds p' = fds p \<and> rlimit_nofile p' = rlimit_nofile p"
  by (auto simp: new_session_def Let_def split: if_splits prod.splits)

lemma change_directory_fds:
  "change_directory env config p = r \<Longrightarrow> r = Next p' \<or> r = Write_Fail error p' \<Longrightarrow>
   fds p' = fds p \<and> rlimit_nofile p' = rlimit_nofile p"
  by (auto simp: change_directory_def split: option.splits)

lemma execve_fds:
  "execve env p = r \<Longrightarrow> r = Next p' \<or> r = Write_Fail error p' \<Longrightarrow>
   fds p' = fds p \<and> rlimit_nofile p' = rlimit_nofile p"
  by (auto simp: execve_def split: option.splits)

lemma read_entries_fds:
  "read_entries h answers p = Some (h', p') \<Longrightarrow>
   fds p' = fds p \<and> rlimit_nofile p' = rlimit_nofile p"
  by (induction h answers p rule: read_entries.induct) (auto split: option.splits)

lemma highest_possibly_open_fd_fds:
  "highest_possibly_open_fd env p = Some (hi, p') \<Longrightarrow>
   fds p' = fds p \<and> rlimit_nofile p' = rlimit_nofile p"
  by (auto simp: highest_possibly_open_fd_def highest_possibly_open_fd_dir_syscall_def
        open_dir_def close_fds fun_eq_iff
        split: option.splits prod.splits if_splits
        dest!: read_entries_fds lowest_free_bounds)

lemma close_each_fds:
  "fds (close_each i high_fd error_pipe p) =
     (\<lambda>fd. if i \<le> fd \<and> fd \<le> high_fd \<and> fd \<noteq> error_pipe then None else fds p fd)"
  "rlimit_nofile (close_each i high_fd error_pipe p) = rlimit_nofile p"
proof (induction i high_fd error_pipe p rule: close_each.induct)
  case (1 i high_fd error_pipe p)
  {
    case 1
    show ?case
      using "1.IH"(1)
      by (subst close_each.simps) (auto simp: close_fds fun_eq_iff)
  next
    case 2
    show ?case
      using "1.IH"(2)
      by (subst close_each.simps) (auto simp: close_fds)
  }
qed

lemma to_unsigned_id:
  "0 \<le> x \<Longrightarrow> x \<le> INT_MAX + 1 \<Longrightarrow> to_unsigned x = x"
  by (simp add: to_unsigned_def INT_MAX_def)

lemma close_range_fds:
  "close_range f first_fd last_fd p = (r, p') \<Longrightarrow>
   rlimit_nofile p' = rlimit_nofile p
   \<and> (\<forall>fd. fds p' fd = None \<or> fds p' fd = fds p fd)
   \<and> (\<forall>fd. fd < to_unsigned first_fd \<or> to_unsigned last_fd < fd \<longrightarrow> fds p' fd = fds p fd)"
  by (auto simp: close_range_def split: option.splits if_splits)

lemma close_ranges_fds:
  assumes "close_ranges env config error_pipe p = (r, p')"
    and "0 \<le> psc_fd_setup_count config" and "psc_fd_setup_count config \<le> INT_MAX"
    and "0 \<le> error_pipe" and "error_pipe < INT_MAX"
  shows "rlimit_nofile p' = rlimit_nofile p
   \<and> (\<forall>fd. fds p' fd = None \<or> fds p' fd = fds p fd)
   \<and> (\<forall>fd. fd < psc_fd_setup_count config \<or> fd = error_pipe \<longrightarrow> fds p' fd = fds p fd)"
proof (cases "ce_has_close_range env")
  case False
  then show ?thesis
    using assms(1) by (simp add: close_ranges_def)
next
  case has: True
  let ?n = "psc_fd_setup_count config"
  have un: "to_unsigned ?n = ?n"
    using assms(2,3) by (intro to_unsigned_id) simp_all
  have up: "to_unsigned (error_pipe + 1) = error_pipe + 1"
    using assms(4,5) by (intro to_unsigned_id) simp_all
  show ?thesis
  proof (cases "error_pipe > ?n")
    case True
    obtain r1 p1 where c1: "close_range (ce_close_range env) ?n (error_pipe - 1) p = (r1, p1)"
      by (cases "close_range (ce_close_range env) ?n (error_pipe - 1) p")
    obtain r2 p2 where c2: "close_range (ce_close_range env) (error_pipe + 1) 4294967295 p1
                             = (r2, p2)"
      by (cases "close_range (ce_close_range env) (error_pipe + 1) 4294967295 p1")
    have p': "p' = p2"
      using assms(1) has True c1 c2 by (simp add: close_ranges_def)
    have um: "to_unsigned (error_pipe - 1) = error_pipe - 1"
      using True assms(2,5) by (intro to_unsigned_id) simp_all
    from close_range_fds [OF c1] close_range_fds [OF c2]
    have lim: "rlimit_nofile p2 = rlimit_nofile p"
      and mono1: "\<forall>fd. fds p1 fd = None \<or> fds p1 fd = fds p fd"
      and mono2: "\<forall>fd. fds p2 fd = None \<or> fds p2 fd = fds p1 fd"
      and out1: "\<forall>fd. fd < ?n \<or> error_pipe - 1 < fd \<longrightarrow> fds p1 fd = fds p fd"
      and out2: "\<forall>fd. fd < error_pipe + 1 \<longrightarrow> fds p2 fd = fds p1 fd"
      unfolding un up um by auto
    have mono: "\<forall>fd. fds p2 fd = None \<or> fds p2 fd = fds p fd"
      using mono1 mono2 by metis
    have out: "\<forall>fd. fd < ?n \<or> fd = error_pipe \<longrightarrow> fds p2 fd = fds p fd"
      using out1 out2 True by auto
    show ?thesis
      using p' lim mono out by simp
  next
    case False
    let ?from = "if ?n = error_pipe then error_pipe + 1 else ?n"
    have c: "close_range (ce_close_range env) ?from 4294967295 p = (r, p')"
      using assms(1) has False by (simp add: close_ranges_def)
    have uf: "to_unsigned ?from = ?from"
      using assms(2,3,4,5) by (intro to_unsigned_id) auto
    from close_range_fds [OF c]
    have lim: "rlimit_nofile p' = rlimit_nofile p"
      and mono: "\<forall>fd. fds p' fd = None \<or> fds p' fd = fds p fd"
      and out1: "\<forall>fd. fd < ?from \<longrightarrow> fds p' fd = fds p fd"
      unfolding uf by auto
    have out: "\<forall>fd. fd < ?n \<or> fd = error_pipe \<longrightarrow> fds p' fd = fds p fd"
      using out1 False by auto
    show ?thesis
      using lim mono out by simp
  qed
qed

lemma close_other_fds_fds:
  assumes "close_other_fds env config error_pipe p = r"
    and "r = Next p' \<or> r = Write_Fail error p'"
    and "0 \<le> psc_fd_setup_count config" and "psc_fd_setup_count config \<le> INT_MAX"
    and "0 \<le> error_pipe" and "error_pipe < INT_MAX"
  shows "rlimit_nofile p' = rlimit_nofile p
   \<and> (\<forall>fd. fds p' fd = None \<or> fds p' fd = fds p fd)
   \<and> (\<forall>fd. fd < psc_fd_setup_count config \<or> fd = error_pipe \<longrightarrow> fds p' fd = fds p fd)"
proof (cases "psc_close_other_fds config")
  case False
  then show ?thesis
    using assms(1,2) by (auto simp: close_other_fds_def)
next
  case True
  obtain e p1 where c: "close_ranges env config error_pipe (p\<lparr>errno := ENOSYS\<rparr>) = (e, p1)"
    by (cases "close_ranges env config error_pipe (p\<lparr>errno := ENOSYS\<rparr>)")
  from close_ranges_fds [OF c assms(3,4,5,6)]
  have one: "rlimit_nofile p1 = rlimit_nofile p"
    "\<forall>fd. fds p1 fd = None \<or> fds p1 fd = fds p fd"
    "\<forall>fd. fd < psc_fd_setup_count config \<or> fd = error_pipe \<longrightarrow> fds p1 fd = fds p fd"
    by auto
  show ?thesis
  proof (cases "e \<noteq> 0")
    case False
    then have "p' = p1"
      using assms(1,2) True c by (auto simp: close_other_fds_def)
    then show ?thesis
      using one by simp
  next
    case fallback: True
    then obtain high_fd p2 where h: "highest_possibly_open_fd (ce_fd_dir env) p1 = Some (high_fd, p2)"
      and p': "p' = close_each (psc_fd_setup_count config) high_fd error_pipe p2"
      using assms(1,2) True c by (auto simp: close_other_fds_def split: option.splits)
    from highest_possibly_open_fd_fds [OF h]
    have two: "fds p2 = fds p1" "rlimit_nofile p2 = rlimit_nofile p1"
      by auto
    show ?thesis
      unfolding p' using one two by (auto simp: close_each_fds)
  qed
qed

section \<open>The descriptors of the child at \<open>execve\<close>\<close>

lemma and_then_Next:
  "and_then s k = Next y \<longleftrightarrow> (\<exists>x. s = Next x \<and> k x = Next y)"
  by (cases s) (auto simp: and_then_def)

lemma and_then_Write_Fail:
  "and_then s k = Write_Fail error p \<longleftrightarrow>
     s = Write_Fail error p \<or> (\<exists>x. s = Next x \<and> k x = Write_Fail error p)"
  by (cases s) (auto simp: and_then_def)

lemma duplicate_up_null:
  "duplicate_up dup_fault config k None p = Next x \<Longrightarrow> \<not> k < psc_fd_setup_count config"
  by (subst (asm) duplicate_up.simps) (auto split: option.splits prod.splits if_splits)

text \<open>A child that reaches \<open>execve\<close> has gone through the two loops and the closing of the
  other descriptors; the other stages leave the descriptors alone.\<close>

lemma child_stages_Next:
  assumes "child_stages env config error_pipe scratch p = Next p'"
  shows "\<exists>pc scratch1 p1 pd pe.
     fds pc = fds p
     \<and> duplicate_up (ce_dup env) config 0 scratch pc = Next (scratch1, p1)
     \<and> install_fds (ce_dup2 env) config 0 scratch1 p1 = Next pd
     \<and> close_other_fds env config error_pipe pd = Next pe
     \<and> fds p' = fds pe"
proof -
  from assms obtain pa pb pc pd pe pf where
    a: "reset_signal_handlers (ce_signal env) 1 p = Next pa"
    and b: "reset_signal_mask env pa = Next pb"
    and c: "new_session env config pb = Next pc"
    and d: "arrange_fds env config scratch pc = Next pd"
    and e: "close_other_fds env config error_pipe pd = Next pe"
    and f: "change_directory env config pe = Next pf"
    and g: "execve env pf = Next p'"
    unfolding child_stages_def and_then_Next by blast
  from d obtain scratch1 p1 where
    d1: "duplicate_up (ce_dup env) config 0 scratch pc = Next (scratch1, p1)"
    and d2: "install_fds (ce_dup2 env) config 0 scratch1 p1 = Next pd"
    unfolding arrange_fds_def and_then_Next by auto
  have "fds pc = fds p"
    using reset_signal_handlers_fds [OF a, of pa] reset_signal_mask_fds [OF b, of pb]
      new_session_fds [OF c, of pc]
    by simp
  moreover have "fds p' = fds pe"
    using change_directory_fds [OF f, of pf] execve_fds [OF g, of p'] by simp
  ultimately show ?thesis
    using d1 d2 e by blast
qed

text \<open>The descriptor \<open>i\<close> of the child after the two loops, against the process before them.\<close>

lemma loops_arrange:
  assumes d1: "duplicate_up dup_fault config 0 scratch p = Next (scratch1, p1)"
    and d2: "install_fds dup2_fault config 0 scratch1 p1 = Next p2"
    and i: "0 \<le> i" "i < psc_fd_setup_count config"
  shows "arranged config p p2 i"
proof -
  obtain cells where sc: "scratch = Some cells"
    using duplicate_up_null d1 i by (cases scratch) fastforce+
  from duplicate_up_next [OF d1 sc] obtain cells' where
    s1: "scratch1 = Some cells'"
    and dup: "\<forall>i. 0 \<le> i \<and> i < psc_fd_setup_count config \<longrightarrow> duplicated config p p1 cells' i"
    by blast
  have high: "\<forall>i ins. 0 \<le> i \<and> i < psc_fd_setup_count config
        \<and> instruction_at config i = Some ins \<and> psfd_kind ins = PS_MAP_FD \<longrightarrow>
        psc_fd_setup_count config \<le> cells' i"
    using dup by (auto simp: duplicated_def)
  have ins: "installed config cells' p1 p2 i"
    using install_fds_next [OF d2 s1 high] i by blast
  have du: "duplicated config p p1 cells' i"
    using dup i by blast
  show ?thesis
    using ins du unfolding arranged_def installed_def duplicated_def
    by (auto split: option.splits if_splits)
qed

section \<open>Relations kept by the stages of the child\<close>

lemma and_then_simps [simp]:
  "and_then (Next x) k = k x"
  "and_then (Write_Fail error p) k = Write_Fail error p"
  "and_then Trap k = Trap"
  "and_then Undefined k = Undefined"
  by (simp_all add: and_then_def)

subsection \<open>Relations kept by every stage\<close>

lemma keeps_and_then:
  assumes "keeps R p s"
    and "\<And>q. s = Next q \<Longrightarrow> R p q \<Longrightarrow> keeps R q (k q)"
    and "\<And>a b c. R a b \<Longrightarrow> R b c \<Longrightarrow> R a c"
  shows "keeps R p (and_then s k)"
proof (cases s)
  case (Next q)
  then have "R p q"
    using assms(1) by (simp add: keeps_def)
  then have "keeps R q (k q)"
    using assms(2) Next by blast
  then show ?thesis
    using Next \<open>R p q\<close> assms(3) unfolding keeps_def by auto
qed (use assms(1) in \<open>auto simp: keeps_def\<close>)

lemma fails_with_kind_and_then:
  "fails_with_kind s \<Longrightarrow> (\<And>x. fails_with_kind (k x)) \<Longrightarrow> fails_with_kind (and_then s k)"
  by (cases s) (auto simp: fails_with_kind_def)

lemma reset_signal_handlers_kind:
  "fails_with_kind (reset_signal_handlers sig_fault n p)"
proof (induction sig_fault n p rule: reset_signal_handlers.induct)
  case (1 sig_fault signo p)
  show ?case
    using "1.IH"
    by (subst reset_signal_handlers.simps)
       (auto simp: fails_with_kind_def signal_dfl_def MAKE_PS_ERROR_FROM_ERRNO_def
          PS_ERROR_KIND_SIGNAL_def split: option.splits)
qed

lemma duplicate_up_kind:
  "fails_with_kind (duplicate_up dup_fault config k scratch p)"
proof (induction dup_fault config k scratch p rule: duplicate_up.induct)
  case (1 dup_fault config child_fd scratch p)
  show ?case
    using "1.IH"
    by (subst duplicate_up.simps)
       (auto simp: fails_with_kind_def MAKE_PS_ERROR_FROM_ERRNO_def PS_ERROR_KIND_DUP_def
          split: option.splits prod.splits)
qed

lemma install_fds_kind:
  "fails_with_kind (install_fds dup2_fault config k scratch p)"
proof (induction dup2_fault config k scratch p rule: install_fds.induct)
  case (1 dup2_fault config child_fd scratch p)
  show ?case
    using "1.IH"
    by (subst install_fds.simps)
       (auto simp: fails_with_kind_def MAKE_PS_ERROR_FROM_ERRNO_def PS_ERROR_KIND_DUP2_def
          split: option.splits prod.splits)
qed

lemma arrange_fds_kind:
  "fails_with_kind (arrange_fds env config scratch p)"
  unfolding arrange_fds_def
  by (intro fails_with_kind_and_then duplicate_up_kind) (auto simp: install_fds_kind)

lemma child_stages_kind:
  "fails_with_kind (child_stages env config error_pipe scratch p)"
  unfolding child_stages_def
  apply (intro fails_with_kind_and_then reset_signal_handlers_kind arrange_fds_kind)
  apply (auto simp: fails_with_kind_def reset_signal_mask_def new_session_def Let_def
      close_other_fds_def change_directory_def execve_def MAKE_PS_ERROR_FROM_ERRNO_def
      ps_error_kind_defs split: option.splits prod.splits if_splits)
  done

lemma keeps_same_fds:
  assumes "\<And>r p' error. s = r \<Longrightarrow> r = Next p' \<or> r = Write_Fail error p' \<Longrightarrow> fds p' = fds p"
  shows "keeps (\<lambda>p q. fds p fd = Some x \<longrightarrow> fds q fd = Some x) p s"
  using assms unfolding keeps_def by metis

lemma arrange_fds_keeps_high:
  assumes "psc_fd_setup_count config \<le> fd"
  shows "keeps (\<lambda>p q. fds p fd = Some x \<longrightarrow> fds q fd = Some x) p
           (arrange_fds env config scratch p)"
proof -
  have "fds p' fd = Some x"
    if r: "arrange_fds env config scratch p = r" "r = Next p' \<or> r = Write_Fail error p'"
      and x: "fds p fd = Some x" for r p' error
  proof (cases "duplicate_up (ce_dup env) config 0 scratch p")
    case (Next a)
    obtain scratch1 p1 where a: "a = (scratch1, p1)"
      by (cases a)
    have "\<forall>fd x. fds p fd = Some x \<longrightarrow> fds p1 fd = Some x"
      using duplicate_up_keeps [OF Next [unfolded a], of scratch1 p1] by blast
    then have x1: "fds p1 fd = Some x"
      using x by blast
    have "install_fds (ce_dup2 env) config 0 scratch1 p1 = r"
      using r(1) Next a by (simp add: arrange_fds_def)
    from install_fds_keeps [OF this r(2)] assms x1 show ?thesis
      by auto
  next
    case (Write_Fail e q)
    then have "r = Write_Fail e q"
      using r(1) by (simp add: arrange_fds_def)
    then have "error = e \<and> p' = q"
      using r(2) by auto
    moreover have "\<forall>fd x. fds p fd = Some x \<longrightarrow> fds q fd = Some x"
      using duplicate_up_keeps [OF Write_Fail, of _ q e] by blast
    ultimately show ?thesis
      using x by blast
  next
    case Trap
    then show ?thesis
      using r by (auto simp: arrange_fds_def)
  next
    case Undefined
    then show ?thesis
      using r by (auto simp: arrange_fds_def)
  qed
  then show ?thesis
    unfolding keeps_def by blast
qed

lemma close_other_fds_keeps_pipe:
  assumes "0 \<le> psc_fd_setup_count config" and "psc_fd_setup_count config \<le> INT_MAX"
    and "0 \<le> error_pipe" and "error_pipe < INT_MAX"
  shows "keeps (\<lambda>p q. fds p error_pipe = Some x \<longrightarrow> fds q error_pipe = Some x) p
           (close_other_fds env config error_pipe p)"
  unfolding keeps_def
  using close_other_fds_fds [OF refl _ assms] by metis

text \<open>
  With the error pipe at or above the instruction count, its descriptor is the same from
  the start of the child to \<open>execve\<close> or to \<open>write_fail\<close>.
\<close>

lemma child_stages_keeps_pipe:
  assumes "0 \<le> psc_fd_setup_count config" and "psc_fd_setup_count config \<le> error_pipe"
    and "error_pipe < INT_MAX"
  shows "keeps (\<lambda>p q. fds p error_pipe = Some x \<longrightarrow> fds q error_pipe = Some x) p
           (child_stages env config error_pipe scratch p)"
  unfolding child_stages_def
proof (intro keeps_and_then)
  show "keeps (\<lambda>p q. fds p error_pipe = Some x \<longrightarrow> fds q error_pipe = Some x) p
          (reset_signal_handlers (ce_signal env) 1 p)"
    by (rule keeps_same_fds) (use reset_signal_handlers_fds in blast)
next
  fix q
  show "keeps (\<lambda>p q. fds p error_pipe = Some x \<longrightarrow> fds q error_pipe = Some x) q
          (reset_signal_mask env q)"
    by (rule keeps_same_fds) (use reset_signal_mask_fds in blast)
next
  fix q
  show "keeps (\<lambda>p q. fds p error_pipe = Some x \<longrightarrow> fds q error_pipe = Some x) q
          (new_session env config q)"
    by (rule keeps_same_fds) (use new_session_fds in blast)
next
  fix q
  show "keeps (\<lambda>p q. fds p error_pipe = Some x \<longrightarrow> fds q error_pipe = Some x) q
          (arrange_fds env config scratch q)"
    using assms(2) by (rule arrange_fds_keeps_high)
next
  fix q
  show "keeps (\<lambda>p q. fds p error_pipe = Some x \<longrightarrow> fds q error_pipe = Some x) q
          (close_other_fds env config error_pipe q)"
    using assms by (intro close_other_fds_keeps_pipe) auto
next
  fix q
  show "keeps (\<lambda>p q. fds p error_pipe = Some x \<longrightarrow> fds q error_pipe = Some x) q
          (change_directory env config q)"
    by (rule keeps_same_fds) (use change_directory_fds in blast)
next
  fix q
  show "keeps (\<lambda>p q. fds p error_pipe = Some x \<longrightarrow> fds q error_pipe = Some x) q
          (execve env q)"
    by (rule keeps_same_fds) (use execve_fds in blast)
qed auto

lemma close_ranges_mono:
  assumes "close_ranges env config error_pipe p = (r, p')"
  shows "\<forall>fd. fds p' fd = None \<or> fds p' fd = fds p fd"
proof (cases "ce_has_close_range env \<and> error_pipe > psc_fd_setup_count config")
  case True
  obtain r1 p1 where c1: "close_range (ce_close_range env) (psc_fd_setup_count config)
                            (error_pipe - 1) p = (r1, p1)"
    by (cases "close_range (ce_close_range env) (psc_fd_setup_count config)
                 (error_pipe - 1) p")
  obtain r2 p2 where c2: "close_range (ce_close_range env) (error_pipe + 1) 4294967295 p1
                           = (r2, p2)"
    by (cases "close_range (ce_close_range env) (error_pipe + 1) 4294967295 p1")
  have "p' = p2"
    using assms True c1 c2 by (simp add: close_ranges_def)
  then show ?thesis
    using close_range_fds [OF c1] close_range_fds [OF c2] by metis
next
  case False
  then show ?thesis
    using assms close_range_fds
    by (auto simp: close_ranges_def split: if_splits)
qed

lemma close_other_fds_mono:
  assumes "close_other_fds env config error_pipe p = Next p'"
  shows "\<forall>fd. fds p' fd = None \<or> fds p' fd = fds p fd"
proof (cases "psc_close_other_fds config")
  case False
  then show ?thesis
    using assms by (auto simp: close_other_fds_def)
next
  case True
  obtain e p1 where c: "close_ranges env config error_pipe (p\<lparr>errno := ENOSYS\<rparr>) = (e, p1)"
    by (cases "close_ranges env config error_pipe (p\<lparr>errno := ENOSYS\<rparr>)")
  have one: "\<forall>fd. fds p1 fd = None \<or> fds p1 fd = fds p fd"
    using close_ranges_mono [OF c] by simp
  show ?thesis
  proof (cases "e \<noteq> 0")
    case False
    then have "p' = p1"
      using assms True c by (auto simp: close_other_fds_def)
    then show ?thesis
      using one by simp
  next
    case fallback: True
    then obtain high_fd p2 where
      h: "highest_possibly_open_fd (ce_fd_dir env) p1 = Some (high_fd, p2)"
      and p': "p' = close_each (psc_fd_setup_count config) high_fd error_pipe p2"
      using assms True c by (auto simp: close_other_fds_def split: option.splits)
    from highest_possibly_open_fd_fds [OF h] have "fds p2 = fds p1"
      by simp
    then show ?thesis
      unfolding p' using one by (auto simp: close_each_fds)
  qed
qed

text \<open>
  When every reference to the write end of the error pipe has close-on-exec at the start
  of the child and every source of a \<open>PS_MAP_FD\<close> instruction is open there on another
  description, every reference has close-on-exec when \<open>execve\<close> is called.
\<close>

lemma child_stages_pipe_cloexec:
  assumes run: "child_stages env config error_pipe scratch p = Next p'"
    and start: "\<forall>fd c. fds p fd = Some (Error_Pipe_Write, c) \<longrightarrow> c"
    and sources: "\<forall>i ins. 0 \<le> i \<and> i < psc_fd_setup_count config
        \<and> instruction_at config i = Some ins \<and> psfd_kind ins = PS_MAP_FD \<longrightarrow>
        (\<exists>d c. fds p (psfd_parent_fd ins) = Some (d, c) \<and> d \<noteq> Error_Pipe_Write)"
  shows "\<forall>fd c. fds p' fd = Some (Error_Pipe_Write, c) \<longrightarrow> c"
proof (intro allI impI)
  fix fd c
  assume at: "fds p' fd = Some (Error_Pipe_Write, c)"
  from child_stages_Next [OF run] obtain pc scratch1 p1 pd pe where
    pc: "fds pc = fds p"
    and d1: "duplicate_up (ce_dup env) config 0 scratch pc = Next (scratch1, p1)"
    and d2: "install_fds (ce_dup2 env) config 0 scratch1 p1 = Next pd"
    and co: "close_other_fds env config error_pipe pd = Next pe"
    and p': "fds p' = fds pe"
    by blast
  have new: "\<forall>fd. fds p1 fd = fds pc fd \<or> (\<exists>d. fds p1 fd = Some (d, True))"
    using duplicate_up_keeps [OF d1, of scratch1 p1] by blast
  have one: "c'" if "fds p1 fd' = Some (Error_Pipe_Write, c')" for fd' c'
    using new [rule_format, of fd'] that start pc by (metis Pair_inject option.inject)
  have two: "c'" if t: "fds pd fd' = Some (Error_Pipe_Write, c')" for fd' c'
  proof (cases "0 \<le> fd' \<and> fd' < psc_fd_setup_count config")
    case True
    then have ar: "arranged config pc pd fd'"
      using loops_arrange [OF d1 d2] by blast
    then obtain ins where ins: "instruction_at config fd' = Some ins"
      by (auto simp: arranged_def split: option.splits)
    show ?thesis
    proof (cases "psfd_kind ins = PS_MAP_FD")
      case map: True
      then obtain d0 c0 where src: "fds pc (psfd_parent_fd ins) = Some (d0, c0)"
        "d0 \<noteq> Error_Pipe_Write"
        using sources True ins pc by metis
      then have "\<exists>c. fds pd fd' = Some (d0, c)"
        using ar ins map by (auto simp: arranged_def)
      then show ?thesis
        using t src(2) by auto
    next
      case False
      then show ?thesis
        using ar ins t by (auto simp: arranged_def)
    qed
  next
    case False
    then have "fds pd fd' = fds p1 fd'"
      using install_fds_keeps [OF d2, of pd] by auto
    then show ?thesis
      using one t by metis
  qed
  have mono: "fds pe fd = None \<or> fds pe fd = fds pd fd"
    using close_other_fds_mono [OF co] by blast
  then show c
    using at p' two by (metis option.distinct(1))
qed

subsection \<open>The child's side of \<open>ps_spawn_process\<close>\<close>

lemma pipe_done:
  "pipe f fildes p = (0, (r, w), p1) \<Longrightarrow>
   fds p1 = (fds p)(r \<mapsto> (Error_Pipe_Read, False), w \<mapsto> (Error_Pipe_Write, False))
   \<and> rlimit_nofile p1 = rlimit_nofile p
   \<and> 0 \<le> w \<and> r \<noteq> w \<and> w < rlimit_nofile p \<and> fds p r = None \<and> fds p w = None"
  by (auto simp: pipe_def split: option.splits dest!: lowest_free_bounds split: if_splits)

lemma fcntl_setfd_cloexec_done:
  "fcntl_setfd_cloexec f fd p = (0, p') \<Longrightarrow>
   \<exists>d c. fds p fd = Some (d, c) \<and> fds p' = (fds p)(fd \<mapsto> (d, True))
     \<and> rlimit_nofile p' = rlimit_nofile p"
  by (auto simp: fcntl_setfd_cloexec_def split: option.splits)

lemma block_everything_fds:
  "block_everything_but_something_went_seriously_wrong_signals ret old_mask p = (r, old_mask', p')
   \<Longrightarrow> fds p' = fds p \<and> rlimit_nofile p' = rlimit_nofile p"
  by (auto simp: block_everything_but_something_went_seriously_wrong_signals_def
        seriously_wrong_mask_eq pthread_sigmask_block_def split: if_splits)

lemma finish_not_child: "finish error_pid_fd out_error p \<noteq> In_Child c"
  by (simp add: finish_def Let_def)

lemma wait_for_child_not_child:
  "wait_for_child ndebug err answers error_pid_fd out_error p \<noteq> Some (In_Child c)"
proof (induction answers arbitrary: p)
  case Nil
  then show ?case by simp
next
  case (Cons a answers)
  obtain wp_result e where a: "a = (wp_result, e)"
    by (cases a)
  show ?case
    unfolding a using Cons.IH
    by (auto simp: Let_def set_out_error_eq finish_not_child)
qed

lemma fail_with_not_child:
  "fail_with env pid err error_pid_fd out_error error p \<noteq> Some (In_Child c)"
  by (simp add: fail_with_def set_out_error_eq error_cleanup_def wait_for_child_not_child
        finish_not_child)

lemma read_from_child_not_child:
  "read_from_child env pid err answers error_pid_fd out_error p \<noteq> Some (In_Child c)"
proof (induction answers arbitrary: p)
  case Nil
  then show ?case by simp
next
  case (Cons a answers)
  show ?case
    using Cons.IH by (auto simp: Let_def fail_with_not_child)
qed

lemma fork_and_report_child:
  "fork_and_report env config out_error error_pid_fd scratch old_sigmask p = Some (In_Child c)
   \<Longrightarrow> c = setup_and_execve_child (se_child env) config (snd error_pid_fd) scratch p"
  by (auto simp: fork_and_report_def fail_with_not_child read_from_child_not_child
        split: prod.splits if_splits)

text \<open>
  On the child's side of the fork the process is the caller's with the two ends of the
  error pipe added, both with close-on-exec, on descriptors that were unused at call time.
\<close>

lemma spawn_in_child:
  assumes "ps_spawn_process env config out_error p = Some (In_Child c)"
  shows "\<exists>r w p1 p4.
     pipe (se_pipe env) (- 1, - 1) p = (0, (r, w), p1)
     \<and> fds p4 = (fds p)(r \<mapsto> (Error_Pipe_Read, True), w \<mapsto> (Error_Pipe_Write, True))
     \<and> rlimit_nofile p4 = rlimit_nofile p
     \<and> 0 \<le> w \<and> r \<noteq> w \<and> w < rlimit_nofile p \<and> fds p r = None \<and> fds p w = None
     \<and> c = setup_and_execve_child (se_child env) config w
             (if se_calloc env then Some (\<lambda>i. 0) else None) p4"
proof -
  obtain err fd p1 where pi: "pipe (se_pipe env) (- 1, - 1) p = (err, fd, p1)"
    by (cases "pipe (se_pipe env) (- 1, - 1) p")
  obtain r w where fd: "fd = (r, w)"
    by (cases fd)
  obtain e2 p2 where f2: "fcntl_setfd_cloexec (se_cloexec_read env) r p1 = (e2, p2)"
    by (cases "fcntl_setfd_cloexec (se_cloexec_read env) r p1")
  obtain e3 p3 where f3: "fcntl_setfd_cloexec (se_cloexec_write env) w p2 = (e3, p3)"
    by (cases "fcntl_setfd_cloexec (se_cloexec_write env) w p2")
  obtain e4 old p4 where
    b: "block_everything_but_something_went_seriously_wrong_signals
          (se_sigmask_block env) (se_old_sigmask env) p3 = (e4, old, p4)"
    by (cases "block_everything_but_something_went_seriously_wrong_signals
          (se_sigmask_block env) (se_old_sigmask env) p3")
  have z: "err = 0" "e2 = 0" "e3 = 0" "e4 = 0"
    using assms pi fd f2 f3 b
    by (auto simp: ps_spawn_process_def fail_with_not_child split: if_splits)
  have run: "fork_and_report env config out_error (r, w)
               (if se_calloc env then Some (\<lambda>i. 0) else None) old p4 = Some (In_Child c)"
    using assms pi fd f2 f3 b z
    by (auto simp: ps_spawn_process_def split: if_splits)
  from pipe_done [OF pi [unfolded fd z]]
  have p1: "fds p1 = (fds p)(r \<mapsto> (Error_Pipe_Read, False), w \<mapsto> (Error_Pipe_Write, False))"
    and lim1: "rlimit_nofile p1 = rlimit_nofile p"
    and rw: "0 \<le> w" "r \<noteq> w" "w < rlimit_nofile p" "fds p r = None" "fds p w = None"
    by auto
  from fcntl_setfd_cloexec_done [OF f2 [unfolded z]] p1 rw
  have p2: "fds p2 = (fds p)(r \<mapsto> (Error_Pipe_Read, True), w \<mapsto> (Error_Pipe_Write, False))"
    and lim2: "rlimit_nofile p2 = rlimit_nofile p1"
    by (auto simp: fun_eq_iff)
  from fcntl_setfd_cloexec_done [OF f3 [unfolded z]] p2 rw
  have p3: "fds p3 = (fds p)(r \<mapsto> (Error_Pipe_Read, True), w \<mapsto> (Error_Pipe_Write, True))"
    and lim3: "rlimit_nofile p3 = rlimit_nofile p2"
    by (auto simp: fun_eq_iff)
  from block_everything_fds [OF b] have p4: "fds p4 = fds p3" "rlimit_nofile p4 = rlimit_nofile p3"
    by auto
  have "c = setup_and_execve_child (se_child env) config w
             (if se_calloc env then Some (\<lambda>i. 0) else None) p4"
    using fork_and_report_child [OF run] by simp
  then show ?thesis
    using pi fd z p3 p4 lim1 lim2 lim3 rw by auto
qed

subsection \<open>The descriptors of the child after a spawn\<close>

lemma setup_and_execve_child_Exec:
  "setup_and_execve_child env config error_pipe scratch p = Exec p' \<Longrightarrow>
   child_stages env config error_pipe scratch p = Next p'"
  by (auto simp: setup_and_execve_child_def write_fail_def split: step.splits)

lemma setup_and_execve_child_Exit:
  "setup_and_execve_child env config error_pipe scratch p = Exit status written p' \<Longrightarrow>
   \<exists>error q. child_stages env config error_pipe scratch p = Write_Fail error q
     \<and> status = 253
     \<and> written = map_option (\<lambda>(d, cloexec). (d, error)) (fds q error_pipe)"
  by (auto simp: setup_and_execve_child_def write_fail_def split: step.splits)

lemma child_at_exec_Some:
  "child_at_exec outcome fd = Some x \<Longrightarrow> \<exists>p'. outcome = Some (In_Child (Exec p'))"
  by (auto simp: child_at_exec_def split: option.splits spawn_outcome.splits child_outcome.splits)

lemma child_after_exec_Some:
  "child_after_exec outcome fd = Some x \<Longrightarrow> \<exists>p'. outcome = Some (In_Child (Exec p'))"
  by (auto simp: child_after_exec_def
        split: option.splits spawn_outcome.splits child_outcome.splits)

lemma child_exit_Some:
  "child_exit outcome = Some (status, written) \<Longrightarrow>
   \<exists>p'. outcome = Some (In_Child (Exit status written p'))"
  by (auto simp: child_exit_def split: option.splits spawn_outcome.splits child_outcome.splits)

text \<open>Evaluation of the model at concrete calls.\<close>

lemma reset_quiet:
  "reset_signal_handlers (\<lambda>signo. None) 1 p =
     Next (p\<lparr>dispositions :=
              (\<lambda>s. if 1 \<le> s \<and> resettable s then SIG_DFL else dispositions p s)\<rparr>)"
  by (rule reset_all) simp

lemmas run_defs =
  ps_spawn_process_def pipe_def lowest_free_def fcntl_setfd_cloexec_def
  block_everything_but_something_went_seriously_wrong_signals_def seriously_wrong_mask_eq
  pthread_sigmask_block_def fork_and_report_def setup_and_execve_child_def child_stages_def
  reset_quiet reset_signal_mask_def new_session_def arrange_fds_def duplicate_up.simps
  instruction_at_def fcntl_dupfd_cloexec_def install_fds.simps dup2_def close_def
  close_other_fds_def close_ranges_def close_range_def to_unsigned_def change_directory_def
  execve_def write_fail_def MAKE_PS_ERROR_FROM_ERRNO_def
  child_after_exec_def child_at_exec_def child_exit_def after_exec_def upto.simps
  std_proc_def child_side_def quiet_parent_def quiet_child_def plain_config_def
  PS_MAP_FD_def PS_CLOSE_FD_def




subsection \<open>The error pipe\<close>

text \<open>
  Where the error pipe is kept. When the descriptor \<open>w\<close> of its write end is not below the
  instruction count \<open>N\<close>, the child's arrangement of the descriptors in \<open>[0, N)\<close> and the
  closing of the other descriptors leave it as it was: at a successful \<open>execve\<close> it is
  still the write end, with close-on-exec, and \<open>execve\<close> closes it; when moreover every
  source of a \<open>PS_MAP_FD\<close> instruction was open in the caller at call time, no descriptor
  of the child refers to the write end after \<open>execve\<close>. A child that exits instead has
  written its error record, of non-zero kind, to the pipe and exits with status 253.
\<close>

lemma error_pipe_kept:
  "ps_spawn_process env config out_error p = Some (In_Child c)
   \<and> pipe (se_pipe env) (- 1, - 1) p = (0, (r, w), p1)
   \<and> 0 \<le> psc_fd_setup_count config \<and> psc_fd_setup_count config \<le> w
   \<and> rlimit_nofile p \<le> INT_MAX \<longrightarrow>
   (\<forall>p'. c = Exec p' \<longrightarrow>
      fds p' w = Some (Error_Pipe_Write, True) \<and> after_exec p' w = None
      \<and> ((\<forall>fd cloexec. fds p fd \<noteq> Some (Error_Pipe_Write, cloexec))
           \<and> (\<forall>i setup. 0 \<le> i \<and> i < psc_fd_setup_count config
                 \<and> instruction_at config i = Some setup \<and> psfd_kind setup = PS_MAP_FD \<longrightarrow>
                 fds p (psfd_parent_fd setup) \<noteq> None) \<longrightarrow>
          (\<forall>fd cloexec. after_exec p' fd \<noteq> Some (Error_Pipe_Write, cloexec))))
   \<and> (\<forall>status written p'. c = Exit status written p' \<longrightarrow>
        status = 253
        \<and> (\<exists>error. written = Some (Error_Pipe_Write, error) \<and> pse_kind error \<noteq> 0))"
proof
  assume a: "ps_spawn_process env config out_error p = Some (In_Child c)
   \<and> pipe (se_pipe env) (- 1, - 1) p = (0, (r, w), p1)
   \<and> 0 \<le> psc_fd_setup_count config \<and> psc_fd_setup_count config \<le> w
   \<and> rlimit_nofile p \<le> INT_MAX"
  then have run: "ps_spawn_process env config out_error p = Some (In_Child c)"
    and pi: "pipe (se_pipe env) (- 1, - 1) p = (0, (r, w), p1)"
    and n: "0 \<le> psc_fd_setup_count config" "psc_fd_setup_count config \<le> w"
    and lim: "rlimit_nofile p \<le> INT_MAX"
    by auto
  let ?scratch = "if se_calloc env then Some (\<lambda>i. 0) else None"
  from spawn_in_child [OF run] pi obtain p4 where
    p4: "fds p4 = (fds p)(r \<mapsto> (Error_Pipe_Read, True), w \<mapsto> (Error_Pipe_Write, True))"
    and w: "0 \<le> w" "r \<noteq> w" "w < rlimit_nofile p" "fds p r = None" "fds p w = None"
    and c: "c = setup_and_execve_child (se_child env) config w ?scratch p4"
    by auto
  have wmax: "w < INT_MAX"
    using w lim by simp
  have start: "fds p4 w = Some (Error_Pipe_Write, True)"
    using p4 by simp
  have kept: "keeps (\<lambda>p q. fds p w = Some (Error_Pipe_Write, True) \<longrightarrow>
                        fds q w = Some (Error_Pipe_Write, True)) p4
                (child_stages (se_child env) config w ?scratch p4)"
    using n wmax by (rule child_stages_keeps_pipe)
  show "(\<forall>p'. c = Exec p' \<longrightarrow>
      fds p' w = Some (Error_Pipe_Write, True) \<and> after_exec p' w = None
      \<and> ((\<forall>fd cloexec. fds p fd \<noteq> Some (Error_Pipe_Write, cloexec))
           \<and> (\<forall>i setup. 0 \<le> i \<and> i < psc_fd_setup_count config
                 \<and> instruction_at config i = Some setup \<and> psfd_kind setup = PS_MAP_FD \<longrightarrow>
                 fds p (psfd_parent_fd setup) \<noteq> None) \<longrightarrow>
          (\<forall>fd cloexec. after_exec p' fd \<noteq> Some (Error_Pipe_Write, cloexec))))
   \<and> (\<forall>status written p'. c = Exit status written p' \<longrightarrow>
        status = 253
        \<and> (\<exists>error. written = Some (Error_Pipe_Write, error) \<and> pse_kind error \<noteq> 0))"
  proof (intro conjI allI impI)
    fix p'
    assume e: "c = Exec p'"
    then have st: "child_stages (se_child env) config w ?scratch p4 = Next p'"
      using c setup_and_execve_child_Exec by metis
    then show at: "fds p' w = Some (Error_Pipe_Write, True)"
      using kept start by (simp add: keeps_def)
    then show "after_exec p' w = None"
      by (simp add: after_exec_def)
    fix fd cloexec
    assume h: "(\<forall>fd cloexec. fds p fd \<noteq> Some (Error_Pipe_Write, cloexec))
           \<and> (\<forall>i setup. 0 \<le> i \<and> i < psc_fd_setup_count config
                 \<and> instruction_at config i = Some setup \<and> psfd_kind setup = PS_MAP_FD \<longrightarrow>
                 fds p (psfd_parent_fd setup) \<noteq> None)"
    have s4: "\<forall>fd c. fds p4 fd = Some (Error_Pipe_Write, c) \<longrightarrow> c"
      using p4 h by (auto split: if_splits)
    have srcs: "\<forall>i ins. 0 \<le> i \<and> i < psc_fd_setup_count config
        \<and> instruction_at config i = Some ins \<and> psfd_kind ins = PS_MAP_FD \<longrightarrow>
        (\<exists>d c. fds p4 (psfd_parent_fd ins) = Some (d, c) \<and> d \<noteq> Error_Pipe_Write)"
    proof (intro allI impI)
      fix i ins
      assume "0 \<le> i \<and> i < psc_fd_setup_count config
        \<and> instruction_at config i = Some ins \<and> psfd_kind ins = PS_MAP_FD"
      then obtain d0 c0 where o: "fds p (psfd_parent_fd ins) = Some (d0, c0)"
        using h by fastforce
      then have "d0 \<noteq> Error_Pipe_Write"
        using h by auto
      moreover have "fds p4 (psfd_parent_fd ins) = Some (d0, c0)"
        using o p4 w by auto
      ultimately show "\<exists>d c. fds p4 (psfd_parent_fd ins) = Some (d, c) \<and> d \<noteq> Error_Pipe_Write"
        by blast
    qed
    have "\<forall>fd c. fds p' fd = Some (Error_Pipe_Write, c) \<longrightarrow> c"
      using child_stages_pipe_cloexec [OF st s4 srcs] .
    then show "after_exec p' fd \<noteq> Some (Error_Pipe_Write, cloexec)"
      by (auto simp: after_exec_def split: option.splits if_splits)
  next
    fix status written p'
    assume e: "c = Exit status written p'"
    from setup_and_execve_child_Exit [OF c [unfolded e, symmetric]]
    obtain error q where
      st: "child_stages (se_child env) config w ?scratch p4 = Write_Fail error q"
      and s: "status = 253"
      and wr: "written = map_option (\<lambda>(d, cloexec). (d, error)) (fds q w)"
      by blast
    show "status = 253"
      by (rule s)
    have "fds q w = Some (Error_Pipe_Write, True)"
      using kept start st by (simp add: keeps_def)
    moreover have "pse_kind error \<noteq> 0"
      using child_stages_kind [of "se_child env" config w ?scratch p4] st
      by (simp add: fails_with_kind_def)
    ultimately show "\<exists>error. written = Some (Error_Pipe_Write, error) \<and> pse_kind error \<noteq> 0"
      using wr by simp
  qed
qed

lemma error_pipe_kept_example:
  "fst (snd (pipe None (- 1, - 1) std_proc)) = (3, 4)
   \<and> psc_fd_setup_count swap_config = 3
   \<and> child_at_exec (ps_spawn_process child_side swap_config None std_proc) 4 =
       Some (Some (Error_Pipe_Write, True))
   \<and> child_after_exec (ps_spawn_process child_side swap_config None std_proc) 4 = Some None
   \<and> child_after_exec (ps_spawn_process child_side swap_config None std_proc) 5 = Some None
   \<and> child_exit
        (ps_spawn_process (child_side\<lparr>se_child := quiet_child\<lparr>ce_execve := Some 2\<rparr>\<rparr>)
           swap_config None std_proc) = Some (253, Some (Error_Pipe_Write, enoent_report))
   \<and> pse_kind enoent_report \<noteq> 0"
proof -
  let ?run = "ps_spawn_process child_side swap_config None std_proc"
  let ?failing = "child_side\<lparr>se_child := quiet_child\<lparr>ce_execve := Some 2\<rparr>\<rparr>"
  let ?fail = "ps_spawn_process ?failing swap_config None std_proc"
  have pi: "fst (pipe None (- 1, - 1) std_proc) = 0"
    "fst (snd (pipe None (- 1, - 1) std_proc)) = (3, 4)"
    by (simp_all add: run_defs)
  then obtain p1 where pipe: "pipe None (- 1, - 1) std_proc = (0, (3, 4), p1)"
    by (cases "pipe None (- 1, - 1) std_proc") auto
  have v: "child_after_exec ?run 5 = Some None"
    by (simp add: run_defs swap_config_def)
  have x: "child_exit ?fail = Some (253, Some (Error_Pipe_Write, enoent_report))"
    by (simp add: run_defs swap_config_def enoent_report_def PS_ERROR_KIND_EXECVE_def)
  obtain p' where p': "?run = Some (In_Child (Exec p'))"
    using child_after_exec_Some [OF v] by blast
  obtain q where q: "?fail = Some (In_Child (Exit 253 (Some (Error_Pipe_Write, enoent_report)) q))"
    using child_exit_Some [OF x] by blast
  have n: "psc_fd_setup_count swap_config = 3"
    by (simp add: swap_config_def plain_config_def)
  have b: "rlimit_nofile std_proc \<le> INT_MAX"
    by (simp add: std_proc_def INT_MAX_def)
  have sp: "se_pipe child_side = None" "se_pipe ?failing = None"
    by (simp_all add: child_side_def quiet_parent_def)
  have pre: "?run = Some (In_Child (Exec p'))
     \<and> pipe (se_pipe child_side) (- 1, - 1) std_proc = (0, (3, 4), p1)
     \<and> 0 \<le> psc_fd_setup_count swap_config \<and> psc_fd_setup_count swap_config \<le> 4
     \<and> rlimit_nofile std_proc \<le> INT_MAX"
    using p' pipe n b sp(1) by simp
  have at: "fds p' 4 = Some (Error_Pipe_Write, True) \<and> after_exec p' 4 = None"
    using error_pipe_kept [THEN mp, OF pre] by blast
  have pre2: "?fail = Some (In_Child (Exit 253 (Some (Error_Pipe_Write, enoent_report)) q))
     \<and> pipe (se_pipe ?failing) (- 1, - 1) std_proc = (0, (3, 4), p1)
     \<and> 0 \<le> psc_fd_setup_count swap_config \<and> psc_fd_setup_count swap_config \<le> 4
     \<and> rlimit_nofile std_proc \<le> INT_MAX"
    using q pipe n b sp(2) by simp
  have k: "pse_kind enoent_report \<noteq> 0"
    using error_pipe_kept [THEN mp, OF pre2] by blast
  have v4: "child_at_exec ?run 4 = Some (Some (Error_Pipe_Write, True))"
    "child_after_exec ?run 4 = Some None"
    using at unfolding p' by (simp_all add: child_at_exec_def child_after_exec_def)
  show ?thesis
    using pi(2) n v4 v x k by blast
qed

lemma spawn_reaches_fork:
  assumes "ps_spawn_process env config out_error p = Some (In_Child c)"
    and "se_pipe env' = se_pipe env" and "se_cloexec_read env' = se_cloexec_read env"
    and "se_cloexec_write env' = se_cloexec_write env" and "se_calloc env' = se_calloc env"
    and "se_mutex_lock env' = se_mutex_lock env" and "se_sigmask_block env' = se_sigmask_block env"
    and "se_old_sigmask env' = se_old_sigmask env"
  shows "\<exists>error_pid_fd scratch old_sigmask p4.
     ps_spawn_process env' config out_error' p =
       fork_and_report env' config out_error' error_pid_fd scratch old_sigmask p4"
proof -
  obtain err fd p1 where pi: "pipe (se_pipe env) (- 1, - 1) p = (err, fd, p1)"
    by (cases "pipe (se_pipe env) (- 1, - 1) p")
  obtain e2 p2 where f2: "fcntl_setfd_cloexec (se_cloexec_read env) (fst fd) p1 = (e2, p2)"
    by (cases "fcntl_setfd_cloexec (se_cloexec_read env) (fst fd) p1")
  obtain e3 p3 where f3: "fcntl_setfd_cloexec (se_cloexec_write env) (snd fd) p2 = (e3, p3)"
    by (cases "fcntl_setfd_cloexec (se_cloexec_write env) (snd fd) p2")
  obtain e4 old p4 where
    b: "block_everything_but_something_went_seriously_wrong_signals
          (se_sigmask_block env) (se_old_sigmask env) p3 = (e4, old, p4)"
    by (cases "block_everything_but_something_went_seriously_wrong_signals
          (se_sigmask_block env) (se_old_sigmask env) p3")
  have z: "err = 0" "e2 = 0" "e3 = 0" "e4 = 0" "se_mutex_lock env = 0"
    using assms(1) pi f2 f3 b
    by (auto simp: ps_spawn_process_def fail_with_not_child split: if_splits)
  have "ps_spawn_process env' config out_error' p =
      fork_and_report env' config out_error' fd
        (if se_calloc env then Some (\<lambda>i. 0) else None) old p4"
    using pi f2 f3 b z assms(2-) by (simp add: ps_spawn_process_def)
  then show ?thesis
    by blast
qed

lemma holds_write_end_fd:
  "holds_write_end p \<Longrightarrow> \<exists>fd cloexec. after_exec p fd = Some (Error_Pipe_Write, cloexec)"
  by (auto simp: holds_write_end_def list_ex_iff split: option.splits)

text \<open>
  With the error pipe not below the instruction count, and every source open in the
  caller at call time, the parent is told what the child did: when the child has passed
  \<open>execve\<close> the read is at the end of the pipe and the call returns the pid, leaving
  \<open>*out_error\<close> as it was; when the child has failed the call reads the child's record,
  reaps the child and returns 0 with that record in \<open>*out_error\<close>.
\<close>

lemma error_pipe_read_by_parent:
  assumes child: "ps_spawn_process (env\<lparr>se_fork := (0, 0)\<rparr>) config out_error p = Some (In_Child c)"
    and pi: "pipe (se_pipe env) (- 1, - 1) p = (0, (r, w), p1)"
    and n: "0 \<le> psc_fd_setup_count config" "psc_fd_setup_count config \<le> w"
    and lim: "rlimit_nofile p \<le> INT_MAX"
    and caller: "\<forall>fd cloexec. fds p fd \<noteq> Some (Error_Pipe_Write, cloexec)"
    and sources: "\<forall>i setup. 0 \<le> i \<and> i < psc_fd_setup_count config
                 \<and> instruction_at config i = Some setup \<and> psfd_kind setup = PS_MAP_FD \<longrightarrow>
                 fds p (psfd_parent_fd setup) \<noteq> None"
    and fork: "se_fork env = (pid, e)" "0 < pid"
    and after: "se_sigmask_restore env = 0" "se_mutex_unlock env = 0"
  shows "c = Exec p' \<Longrightarrow>
      returned (spawn_with_child env config out_error p) = Some (pid, out_error)"
    and "c = Exit status written p' \<Longrightarrow> out_error = Some e0 \<Longrightarrow>
      se_waitpids env = (wp_result, e') # later \<Longrightarrow> 0 < wp_result \<Longrightarrow>
      \<exists>error. written = Some (Error_Pipe_Write, error) \<and> pse_kind error \<noteq> 0
        \<and> returned (spawn_with_child env config out_error p) = Some (0, Some error)"
proof -
  let ?child = "env\<lparr>se_fork := (0, 0)\<rparr>"
  let ?parent = "env\<lparr>se_reads := error_pipe_reads c\<rparr>"
  have pre: "ps_spawn_process ?child config out_error p = Some (In_Child c)
     \<and> pipe (se_pipe ?child) (- 1, - 1) p = (0, (r, w), p1)
     \<and> 0 \<le> psc_fd_setup_count config \<and> psc_fd_setup_count config \<le> w
     \<and> rlimit_nofile p \<le> INT_MAX"
    using child pi n lim by simp
  note kept = error_pipe_kept [THEN mp, OF pre]
  obtain error_pid_fd scratch old_sigmask p4 where
    run: "ps_spawn_process ?parent config out_error p =
       fork_and_report ?parent config out_error error_pid_fd scratch old_sigmask p4"
    using spawn_reaches_fork [OF child, of ?parent out_error] by auto
  have both: "spawn_with_child env config out_error p =
       fork_and_report ?parent config out_error error_pid_fd scratch old_sigmask p4"
    using child run by (simp add: spawn_with_child_def)
  {
    assume e: "c = Exec p'"
    have "\<forall>fd cloexec. after_exec p' fd \<noteq> Some (Error_Pipe_Write, cloexec)"
      using kept e caller sources by blast
    then have "\<not> holds_write_end p'"
      using holds_write_end_fd by blast
    then have "error_pipe_reads c = [] @ end_of_pipe # []"
      using e by (simp add: error_pipe_reads_def)
    then have "returned (fork_and_report ?parent config out_error error_pid_fd scratch
                 old_sigmask p4) = Some (pid, out_error)"
      using fork after
      by (intro fork_and_report_returns(1) [where failed = "[]" and a = end_of_pipe])
        (simp_all add: end_of_pipe_def)
    then show "returned (spawn_with_child env config out_error p) = Some (pid, out_error)"
      using both by simp
  }
  {
    assume e: "c = Exit status written p'" and o: "out_error = Some e0"
      and wp: "se_waitpids env = (wp_result, e') # later" "0 < wp_result"
    obtain error where wr: "written = Some (Error_Pipe_Write, error)" and k: "pse_kind error \<noteq> 0"
      using kept e by blast
    let ?a = "\<lparr>ra_result = sizeof_ps_error, ra_data = error, ra_errno = 0\<rparr>"
    have "error_pipe_reads c = [] @ ?a # [end_of_pipe]"
      using e wr by (simp add: error_pipe_reads_def)
    then have "returned (fork_and_report ?parent config (Some e0) error_pid_fd scratch
                 old_sigmask p4) = Some (0, Some (ra_data ?a))"
      using fork after wp k
      by (intro fork_and_report_returns(2)
            [where failed = "[]" and a = ?a and wp_result = wp_result]) simp_all
    then have "returned (spawn_with_child env config out_error p) = Some (0, Some error)"
      using both o by simp
    then show "\<exists>error. written = Some (Error_Pipe_Write, error) \<and> pse_kind error \<noteq> 0
        \<and> returned (spawn_with_child env config out_error p) = Some (0, Some error)"
      using wr k by blast
  }
qed

text \<open>
  Claim C4, at concrete calls. The caller has descriptors 0, 1 and 2 open, so the error
  pipe takes descriptors 3 and 4, and the configuration has five instructions: the write
  end, descriptor 4, lies in the low range \<open>[0, 5)\<close>. The child does not duplicate it above
  the instruction count: the second loop closes descriptor 4, or, with a \<open>PS_MAP_FD\<close>
  instruction in slot 4, overwrites it with the caller's descriptor 1. It is closed when
  \<open>execve\<close> is called, and not by close-on-exec. When \<open>execve\<close> fails, the child's error
  record is written to a closed descriptor, or into the caller's file; the parent reads
  the end of the pipe and the call returns pid 77 with \<open>*out_error\<close> untouched, a failed
  spawn reported as a success. The same call with three instructions, where the write end
  is above the low range, returns 0 with the child's record.
\<close>

theorem error_pipe_closed_in_low_range:
  "fst (snd (pipe None (- 1, - 1) std_proc)) = (3, 4)
   \<and> psc_fd_setup_count five_config = 5
   \<and> child_at_exec (ps_spawn_process child_side five_config None std_proc) 4 = Some None
   \<and> child_exit
        (ps_spawn_process (child_side\<lparr>se_child := no_program\<rparr>) five_config None std_proc) =
       Some (253, None)
   \<and> child_exit
        (ps_spawn_process (child_side\<lparr>se_child := no_program\<rparr>) overwrite_config None
           std_proc) = Some (253, Some (Open_File 1, enoent_report))
   \<and> returned
        (spawn_with_child (quiet_parent\<lparr>se_child := no_program, se_waitpids := [(77, 0)]\<rparr>)
           five_config (Some zero_error) std_proc) = Some (77, Some zero_error)
   \<and> returned
        (spawn_with_child (quiet_parent\<lparr>se_child := no_program, se_waitpids := [(77, 0)]\<rparr>)
           overwrite_config (Some zero_error) std_proc) = Some (77, Some zero_error)
   \<and> returned
        (spawn_with_child (quiet_parent\<lparr>se_child := no_program, se_waitpids := [(77, 0)]\<rparr>)
           swap_config (Some zero_error) std_proc) = Some (0, Some enoent_report)"
proof -
  let ?env = "quiet_parent\<lparr>se_child := no_program, se_waitpids := [(77, 0)]\<rparr>"
  let ?child = "?env\<lparr>se_fork := (0, 0)\<rparr>"
  let ?report = "\<lparr>ra_result = sizeof_ps_error, ra_data = enoent_report, ra_errno = 0\<rparr>"
  have pi: "fst (snd (pipe None (- 1, - 1) std_proc)) = (3, 4)"
    "psc_fd_setup_count five_config = 5"
    by (simp_all add: run_defs five_config_def)
  have at: "child_at_exec (ps_spawn_process child_side five_config None std_proc) 4 = Some None"
    by (simp add: run_defs five_config_def)
  have closed: "child_exit
      (ps_spawn_process (child_side\<lparr>se_child := no_program\<rparr>) five_config None std_proc) =
        Some (253, None)"
    by (simp add: run_defs five_config_def no_program_def)
  have over: "child_exit
      (ps_spawn_process (child_side\<lparr>se_child := no_program\<rparr>) overwrite_config None
         std_proc) = Some (253, Some (Open_File 1, enoent_report))"
    by (simp add: run_defs overwrite_config_def no_program_def enoent_report_def
          PS_ERROR_KIND_EXECVE_def)
  have "child_exit (ps_spawn_process ?child five_config (Some zero_error) std_proc) =
      Some (253, None)"
    by (simp add: run_defs five_config_def no_program_def)
  then obtain q5 where c5: "ps_spawn_process ?child five_config (Some zero_error) std_proc =
      Some (In_Child (Exit 253 None q5))"
    using child_exit_Some by blast
  have "child_exit (ps_spawn_process ?child overwrite_config (Some zero_error) std_proc) =
      Some (253, Some (Open_File 1, enoent_report))"
    by (simp add: run_defs overwrite_config_def no_program_def enoent_report_def
          PS_ERROR_KIND_EXECVE_def)
  then obtain qo where co: "ps_spawn_process ?child overwrite_config (Some zero_error) std_proc =
      Some (In_Child (Exit 253 (Some (Open_File 1, enoent_report)) qo))"
    using child_exit_Some by blast
  have "child_exit (ps_spawn_process ?child swap_config (Some zero_error) std_proc) =
      Some (253, Some (Error_Pipe_Write, enoent_report))"
    by (simp add: run_defs swap_config_def no_program_def enoent_report_def
          PS_ERROR_KIND_EXECVE_def)
  then obtain q3 where c3: "ps_spawn_process ?child swap_config (Some zero_error) std_proc =
      Some (In_Child (Exit 253 (Some (Error_Pipe_Write, enoent_report)) q3))"
    using child_exit_Some by blast
  have p5: "returned (ps_spawn_process (?env\<lparr>se_reads := [end_of_pipe]\<rparr>) five_config
      (Some zero_error) std_proc) = Some (77, Some zero_error)"
    by code_simp
  have po: "returned (ps_spawn_process (?env\<lparr>se_reads := [end_of_pipe]\<rparr>) overwrite_config
      (Some zero_error) std_proc) = Some (77, Some zero_error)"
    by code_simp
  have p3: "returned (ps_spawn_process (?env\<lparr>se_reads := [?report, end_of_pipe]\<rparr>) swap_config
      (Some zero_error) std_proc) = Some (0, Some enoent_report)"
    by code_simp
  have r5: "returned (spawn_with_child ?env five_config (Some zero_error) std_proc) =
      Some (77, Some zero_error)"
    using p5 by (simp add: spawn_with_child_def c5 error_pipe_reads_def)
  have ro: "returned (spawn_with_child ?env overwrite_config (Some zero_error) std_proc) =
      Some (77, Some zero_error)"
    using po by (simp add: spawn_with_child_def co error_pipe_reads_def)
  have r3: "returned (spawn_with_child ?env swap_config (Some zero_error) std_proc) =
      Some (0, Some enoent_report)"
    using p3 by (simp add: spawn_with_child_def c3 error_pipe_reads_def)
  show ?thesis
    using pi at closed over r5 ro r3 by blast
qed

end
